theory Spec2Isabelle
  imports Main "HOL-Library.AList" "HOL-Library.Multiset"
begin

section \<open>Python values\<close>

text \<open>
  The pipeline of \<^verbatim>\<open>db_schema_retrieval.py\<close> works on loosely typed data: the content of
  a stored document is a Python literal read by \<^verbatim>\<open>ast.literal_eval\<close>, the reply of the
  language model is JSON read by \<^verbatim>\<open>orjson.loads\<close>. Both are modelled by one datatype of
  values. A dict is an association list in insertion order whose keys are strings (the
  keys of a JSON object); floats, tuples, sets and bytes are left out.
\<close>

datatype pyval =
    PNone
  | PBool bool
  | PInt int
  | PStr string
  | PList "pyval list"
  | PDict "(string \<times> pyval) list"

type_synonym pydict = "(string \<times> pyval) list"

text \<open>The exceptions the functions below can raise.\<close>

datatype error =
    DecodeError      \<comment> \<open>\<^verbatim>\<open>ast.literal_eval\<close> raises (ValueError or SyntaxError)\<close>
  | JSONDecodeError  \<comment> \<open>\<^verbatim>\<open>orjson.loads\<close> raises\<close>
  | KeyError
  | TypeError
  | AttributeError
  | IndexError
  | DdlError         \<comment> \<open>an exception raised inside \<^verbatim>\<open>build_table_ddl\<close>\<close>

text \<open>\<^verbatim>\<open>v[k]\<close> with a string key: only a dict can be subscripted by a string.\<close>

fun getitem :: "pyval \<Rightarrow> string \<Rightarrow> error + pyval" where
  "getitem (PDict kvs) k = (case map_of kvs k of None \<Rightarrow> Inl KeyError | Some v \<Rightarrow> Inr v)"
| "getitem _ k = Inl TypeError"

text \<open>
  Iterating over a value (\<^verbatim>\<open>for x in v\<close>, \<^verbatim>\<open>set(v)\<close>, \<^verbatim>\<open>list.extend\<close>): a list gives
  its elements, a string its characters as one-character strings, a dict its keys; the
  other values are not iterable.
\<close>

fun py_iter :: "pyval \<Rightarrow> error + pyval list" where
  "py_iter (PList xs) = Inr xs"
| "py_iter (PStr s) = Inr (map (\<lambda>c. PStr [c]) s)"
| "py_iter (PDict kvs) = Inr (map (\<lambda>kv. PStr (fst kv)) kvs)"
| "py_iter _ = Inl TypeError"

text \<open>
  \<^verbatim>\<open>x += y\<close>: a list is extended by any iterable, strings are concatenated, numbers
  (a bool counts as 0 or 1) are added; every other combination raises TypeError.
\<close>

fun py_num :: "pyval \<Rightarrow> int option" where
  "py_num (PInt i) = Some i"
| "py_num (PBool b) = Some (if b then 1 else 0)"
| "py_num _ = None"

fun py_iadd :: "pyval \<Rightarrow> pyval \<Rightarrow> error + pyval" where
  "py_iadd (PList xs) y = (case py_iter y of Inl e \<Rightarrow> Inl e | Inr ys \<Rightarrow> Inr (PList (xs @ ys)))"
| "py_iadd (PStr a) (PStr b) = Inr (PStr (a @ b))"
| "py_iadd x y =
     (case (py_num x, py_num y) of
        (Some i, Some j) \<Rightarrow> Inr (PInt (i + j))
      | _ \<Rightarrow> Inl TypeError)"

section \<open>Documents\<close>

text \<open>
  A haystack \<^verbatim>\<open>Document\<close> of the schema store. \<^verbatim>\<open>ast.literal_eval\<close> is a library
  function: the model keeps, for the content string of a document, the value that
  \<^verbatim>\<open>ast.literal_eval(document.content)\<close> returns, and \<open>None\<close> when the call raises.
  \<open>content_value\<close> is that value; \<open>meta_name\<close> is \<^verbatim>\<open>document.meta["name"]\<close>, a string.
\<close>

record document =
  content_value :: "pyval option"
  meta_name :: string

section \<open>Schema reassembly: \<^verbatim>\<open>construct_db_schemas\<close>\<close>

type_synonym db_schemas = "(string \<times> pydict) list"

text \<open>
  One round of the loop over the documents. The dict \<^verbatim>\<open>db_schemas\<close> is keyed by
  \<^verbatim>\<open>document.meta["name"]\<close> and keeps insertion order; \<open>AList.update\<close> replaces the
  value of a key where it stands and appends a new key at the end, as a dict does.
\<close>

definition merge_fragment :: "document \<Rightarrow> db_schemas \<Rightarrow> error + db_schemas" where
  "merge_fragment document db_schemas =
     (case content_value document of
        None \<Rightarrow> Inl DecodeError
      | Some (PDict kvs) \<Rightarrow>
          (case map_of kvs ''type'' of
             None \<Rightarrow> Inl KeyError
           | Some t \<Rightarrow>
               if t = PStr ''TABLE'' then
                 (case map_of db_schemas (meta_name document) of
                    None \<Rightarrow> Inr (AList.update (meta_name document) kvs db_schemas)
                  | Some old \<Rightarrow>
                      Inr (AList.update (meta_name document)
                             (AList.update ''columns''
                                (case map_of old ''columns'' of None \<Rightarrow> PList [] | Some cs \<Rightarrow> cs)
                                kvs)
                             db_schemas))
               else if t = PStr ''TABLE_COLUMNS'' then
                 (case map_of db_schemas (meta_name document) of
                    None \<Rightarrow>
                      (case map_of kvs ''columns'' of
                         None \<Rightarrow> Inl KeyError
                       | Some cols \<Rightarrow>
                           Inr (AList.update (meta_name document) [(''columns'', cols)] db_schemas))
                  | Some old \<Rightarrow>
                      (case map_of old ''columns'' of
                         None \<Rightarrow>
                           (case map_of kvs ''columns'' of
                              None \<Rightarrow> Inl KeyError
                            | Some cols \<Rightarrow>
                                Inr (AList.update (meta_name document)
                                       (AList.update ''columns'' cols old) db_schemas))
                       | Some cs \<Rightarrow>
                           (case map_of kvs ''columns'' of
                              None \<Rightarrow> Inl KeyError
                            | Some cols \<Rightarrow>
                                (case py_iadd cs cols of
                                   Inl e \<Rightarrow> Inl e
                                 | Inr cs' \<Rightarrow>
                                     Inr (AList.update (meta_name document)
                                            (AList.update ''columns'' cs' old) db_schemas)))))
               else Inr db_schemas)
      | Some _ \<Rightarrow> Inl TypeError)"

fun merge_fragments :: "document list \<Rightarrow> db_schemas \<Rightarrow> error + db_schemas" where
  "merge_fragments [] db_schemas = Inr db_schemas"
| "merge_fragments (document # documents) db_schemas =
     (case merge_fragment document db_schemas of
        Inl e \<Rightarrow> Inl e
      | Inr db_schemas' \<Rightarrow> merge_fragments documents db_schemas')"

text \<open>\<^verbatim>\<open>"type" in v and "columns" in v\<close>\<close>

definition complete_schema :: "pydict \<Rightarrow> bool" where
  "complete_schema v = (map_of v ''type'' \<noteq> None \<and> map_of v ''columns'' \<noteq> None)"

text \<open>The dict after the removal of the incomplete schemas, as its items.\<close>

definition reassembled :: "document list \<Rightarrow> error + db_schemas" where
  "reassembled dbschema_retrieval =
     (case merge_fragments dbschema_retrieval [] of
        Inl e \<Rightarrow> Inl e
      | Inr db_schemas \<Rightarrow> Inr (filter (\<lambda>kv. complete_schema (snd kv)) db_schemas))"

definition construct_db_schemas :: "document list \<Rightarrow> error + pydict list" where
  "construct_db_schemas dbschema_retrieval =
     (case reassembled dbschema_retrieval of
        Inl e \<Rightarrow> Inl e
      | Inr db_schemas \<Rightarrow> Inr (map snd db_schemas))"

section \<open>Collaborators that are imported from other modules\<close>

text \<open>
  \<^verbatim>\<open>build_table_ddl\<close>, \<^verbatim>\<open>get_engine_supported_data_type\<close> and \<^verbatim>\<open>clean_up_new_lines\<close>
  are imported from \<^verbatim>\<open>src.pipelines.common\<close>; they are parameters of the model, and so
  are the text that an f-string gives for a value that is not a string (\<open>py_str\<close>) and
  the method \<^verbatim>\<open>str.lower\<close> (\<open>str_lower\<close>), which lowers every cased character of Unicode.
  \<^verbatim>\<open>build_table_ddl(content, columns, tables)\<close> returns the DDL and the two flags
  \<^verbatim>\<open>has_calculated_field\<close> and \<^verbatim>\<open>has_json_field\<close>, or raises.
\<close>

text \<open>
  The hashable values, as a Python set or dict compares them: \<^verbatim>\<open>True == 1\<close> and
  \<^verbatim>\<open>False == 0\<close>; a list or a dict is unhashable.
\<close>

datatype key = KNone | KInt int | KStr string

fun hkey :: "pyval \<Rightarrow> key option" where
  "hkey PNone = Some KNone"
| "hkey (PBool b) = Some (KInt (if b then 1 else 0))"
| "hkey (PInt i) = Some (KInt i)"
| "hkey (PStr s) = Some (KStr s)"
| "hkey (PList xs) = None"
| "hkey (PDict kvs) = None"

record deps =
  build_table_ddl :: "pydict \<Rightarrow> key set option \<Rightarrow> key set option \<Rightarrow> error + (string \<times> bool \<times> bool)"
  get_engine_supported_data_type :: "string \<Rightarrow> string"
  clean_up_new_lines :: "string \<Rightarrow> string"
  py_str :: "pyval \<Rightarrow> string"
  str_lower :: "string \<Rightarrow> string"

text \<open>\<^verbatim>\<open>f"{v}"\<close>: a string is inserted as it is.\<close>

definition fmt :: "deps \<Rightarrow> pyval \<Rightarrow> string" where
  "fmt D v = (case v of PStr s \<Rightarrow> s | _ \<Rightarrow> py_str D v)"

text \<open>\<^verbatim>\<open>sep.join(xs)\<close>\<close>

fun py_join :: "string \<Rightarrow> string list \<Rightarrow> string" where
  "py_join sep [] = []"
| "py_join sep [x] = x"
| "py_join sep (x # y # ys) = x @ sep @ py_join sep (y # ys)"

text \<open>\<^verbatim>\<open>v.lower()\<close>: only a string has the method.\<close>

definition py_lower :: "deps \<Rightarrow> pyval \<Rightarrow> error + string" where
  "py_lower D v = (case v of PStr s \<Rightarrow> Inr (str_lower D s) | _ \<Rightarrow> Inl AttributeError)"

definition newline :: string where
  "newline = [CHR 0x0A]"

section \<open>DDL of metrics and views\<close>

text \<open>The list comprehension of \<^verbatim>\<open>_build_metric_ddl\<close>, one column at a time.\<close>

fun metric_columns_ddl :: "deps \<Rightarrow> pyval list \<Rightarrow> error + string list" where
  "metric_columns_ddl D [] = Inr []"
| "metric_columns_ddl D (column # columns) =
     (case getitem column ''data_type'' of
        Inl e \<Rightarrow> Inl e
      | Inr data_type \<Rightarrow>
          (case py_lower D data_type of
             Inl e \<Rightarrow> Inl e
           | Inr l \<Rightarrow>
               if l \<noteq> ''unknown'' then
                 (case getitem column ''comment'' of
                    Inl e \<Rightarrow> Inl e
                  | Inr comment \<Rightarrow>
                      (case getitem column ''name'' of
                         Inl e \<Rightarrow> Inl e
                       | Inr name \<Rightarrow>
                           (case metric_columns_ddl D columns of
                              Inl e \<Rightarrow> Inl e
                            | Inr ddls \<Rightarrow>
                                Inr ((fmt D comment @ fmt D name @ '' ''
                                       @ get_engine_supported_data_type D (fmt D data_type))
                                     # ddls))))
               else metric_columns_ddl D columns))"

definition build_metric_ddl :: "deps \<Rightarrow> pyval \<Rightarrow> error + string" where
  "build_metric_ddl D content =
     (case getitem content ''columns'' of
        Inl e \<Rightarrow> Inl e
      | Inr cols \<Rightarrow>
          (case py_iter cols of
             Inl e \<Rightarrow> Inl e
           | Inr columns \<Rightarrow>
               (case metric_columns_ddl D columns of
                  Inl e \<Rightarrow> Inl e
                | Inr columns_ddl \<Rightarrow>
                    (case getitem content ''comment'' of
                       Inl e \<Rightarrow> Inl e
                     | Inr comment \<Rightarrow>
                         (case getitem content ''name'' of
                            Inl e \<Rightarrow> Inl e
                          | Inr name \<Rightarrow>
                              Inr (fmt D comment @ ''CREATE TABLE '' @ fmt D name @ '' ('' @ newline @ ''  ''
                                   @ py_join ('','' @ newline @ ''  '') columns_ddl
                                   @ newline @ '');''))))))"

definition build_view_ddl :: "deps \<Rightarrow> pyval \<Rightarrow> error + string" where
  "build_view_ddl D content =
     (case getitem content ''comment'' of
        Inl e \<Rightarrow> Inl e
      | Inr comment \<Rightarrow>
          (case getitem content ''name'' of
             Inl e \<Rightarrow> Inl e
           | Inr name \<Rightarrow>
               (case getitem content ''statement'' of
                  Inl e \<Rightarrow> Inl e
                | Inr statement \<Rightarrow>
                    Inr (fmt D comment @ ''CREATE VIEW '' @ fmt D name @ newline @ ''AS ''
                         @ fmt D statement))))"

section \<open>Token budget: \<^verbatim>\<open>check_using_db_schemas_without_pruning\<close>\<close>

record retrieval_result =
  table_name :: pyval
  table_ddl :: string

record flags =
  has_calculated_field :: bool
  has_metric :: bool
  has_json_field :: bool

record check_result = flags +
  db_schemas :: "retrieval_result list"
  tokens :: nat

text \<open>
  The loop over the reassembled schemas; the state is \<^verbatim>\<open>retrieval_results\<close>,
  \<^verbatim>\<open>has_calculated_field\<close> and \<^verbatim>\<open>has_json_field\<close>.
\<close>

fun unpruned_tables ::
  "deps \<Rightarrow> pydict list \<Rightarrow> retrieval_result list \<times> bool \<times> bool
     \<Rightarrow> error + (retrieval_result list \<times> bool \<times> bool)" where
  "unpruned_tables D [] st = Inr st"
| "unpruned_tables D (table_schema # rest) (rs, hc, hj) =
     (case map_of table_schema ''type'' of
        None \<Rightarrow> Inl KeyError
      | Some t \<Rightarrow>
          if t = PStr ''TABLE'' then
            (case build_table_ddl D table_schema None None of
               Inl e \<Rightarrow> Inl e
             | Inr (ddl, c, j) \<Rightarrow>
                 (case map_of table_schema ''name'' of
                    None \<Rightarrow> Inl KeyError
                  | Some n \<Rightarrow>
                      unpruned_tables D rest
                        (rs @ [\<lparr>table_name = n, table_ddl = ddl\<rparr>], hc \<or> c, hj \<or> j)))
          else unpruned_tables D rest (rs, hc, hj))"

text \<open>
  The loop over the documents, for the metrics and the views; the state is
  \<^verbatim>\<open>retrieval_results\<close> and \<^verbatim>\<open>has_metric\<close>.
\<close>

fun unpruned_documents ::
  "deps \<Rightarrow> document list \<Rightarrow> retrieval_result list \<times> bool
     \<Rightarrow> error + (retrieval_result list \<times> bool)" where
  "unpruned_documents D [] st = Inr st"
| "unpruned_documents D (document # rest) (rs, hm) =
     (case content_value document of
        None \<Rightarrow> Inl DecodeError
      | Some c \<Rightarrow>
          (case getitem c ''type'' of
             Inl e \<Rightarrow> Inl e
           | Inr t \<Rightarrow>
               if t = PStr ''METRIC'' then
                 (case getitem c ''name'' of
                    Inl e \<Rightarrow> Inl e
                  | Inr n \<Rightarrow>
                      (case build_metric_ddl D c of
                         Inl e \<Rightarrow> Inl e
                       | Inr ddl \<Rightarrow>
                           unpruned_documents D rest
                             (rs @ [\<lparr>table_name = n, table_ddl = ddl\<rparr>], True)))
               else if t = PStr ''VIEW'' then
                 (case getitem c ''name'' of
                    Inl e \<Rightarrow> Inl e
                  | Inr n \<Rightarrow>
                      (case build_view_ddl D c of
                         Inl e \<Rightarrow> Inl e
                       | Inr ddl \<Rightarrow>
                           unpruned_documents D rest
                             (rs @ [\<lparr>table_name = n, table_ddl = ddl\<rparr>], hm)))
               else unpruned_documents D rest (rs, hm)))"

text \<open>
  \<open>encoding\<close> stands for \<^verbatim>\<open>encoding.encode\<close> of the tiktoken encoding, a parameter of the
  source function too. The parameters \<^verbatim>\<open>construct_db_schemas\<close> and \<^verbatim>\<open>dbschema_retrieval\<close>
  of the source (the outputs of the stages of these names) are \<open>schemas\<close> and
  \<open>documents\<close> here.
\<close>

definition check_using_db_schemas_without_pruning ::
  "deps \<Rightarrow> pydict list \<Rightarrow> document list \<Rightarrow> (string \<Rightarrow> nat list) \<Rightarrow> bool \<Rightarrow> int
     \<Rightarrow> error + check_result" where
  "check_using_db_schemas_without_pruning D schemas documents encoding
       enable_column_pruning context_window_size =
     (case unpruned_tables D schemas ([], False, False) of
        Inl e \<Rightarrow> Inl e
      | Inr (rs1, hc, hj) \<Rightarrow>
          (case unpruned_documents D documents (rs1, False) of
             Inl e \<Rightarrow> Inl e
           | Inr (retrieval_results, hm) \<Rightarrow>
               (let token_count = length (encoding (py_join '' '' (map table_ddl retrieval_results)))
                in if int token_count > context_window_size \<or> enable_column_pruning then
                     Inr \<lparr>has_calculated_field = hc, has_metric = hm, has_json_field = hj,
                          db_schemas = [], tokens = token_count\<rparr>
                   else
                     Inr \<lparr>has_calculated_field = hc, has_metric = hm, has_json_field = hj,
                          db_schemas = retrieval_results, tokens = token_count\<rparr>)))"

section \<open>The pruning request: \<^verbatim>\<open>prompt\<close> and \<^verbatim>\<open>filter_columns_in_tables\<close>\<close>

text \<open>\<^verbatim>\<open>AskHistory\<close> is imported from the service layer; only its question is read.\<close>

record ask_history =
  question :: string

text \<open>\<^verbatim>\<open>[build_table_ddl(s)[0] for s in construct_db_schemas]\<close>\<close>

fun table_ddls :: "deps \<Rightarrow> pydict list \<Rightarrow> error + string list" where
  "table_ddls D [] = Inr []"
| "table_ddls D (construct_db_schema # rest) =
     (case build_table_ddl D construct_db_schema None None of
        Inl e \<Rightarrow> Inl e
      | Inr (ddl, c, j) \<Rightarrow>
          (case table_ddls D rest of Inl e \<Rightarrow> Inl e | Inr ddls \<Rightarrow> Inr (ddl # ddls)))"

text \<open>
  The result is \<open>None\<close> for the empty dict and \<open>Some p\<close> for \<^verbatim>\<open>{"prompt": p}\<close>, a dict
  that is not empty whatever \<open>p\<close> is. \<open>prompt_builder q ds\<close> stands for
  \<^verbatim>\<open>prompt_builder.run(question=q, db_schemas=ds).get("prompt")\<close>.
\<close>

definition prompt ::
  "deps \<Rightarrow> string \<Rightarrow> pydict list \<Rightarrow> (string \<Rightarrow> string list \<Rightarrow> string) \<Rightarrow> check_result
     \<Rightarrow> ask_history list \<Rightarrow> error + string option" where
  "prompt D query schemas prompt_builder check histories =
     (if db_schemas check = [] then
        (case table_ddls D schemas of
           Inl e \<Rightarrow> Inl e
         | Inr ddls \<Rightarrow>
             Inr (Some (clean_up_new_lines D
                          (prompt_builder
                             (py_join newline (map question histories) @ newline @ query) ddls))))
      else Inr None)"

text \<open>
  The output of the generator is a dict with the key \<^verbatim>\<open>replies\<close>. \<^verbatim>\<open>orjson.loads\<close> is a
  library function: a reply is kept as the value that \<^verbatim>\<open>orjson.loads\<close> returns for its
  text, \<open>None\<close> when the call raises.
\<close>

record generation =
  replies :: "pyval option list"

text \<open>
  The first component lists the prompts the generator was called with; the second is
  what the decorated function returns (\<^verbatim>\<open>trace_cost\<close> unpacks the pair and keeps the
  generator's output), \<open>None\<close> for the empty dict.
\<close>

definition filter_columns_in_tables ::
  "string option \<Rightarrow> (string \<Rightarrow> generation) \<Rightarrow> string list \<times> generation option" where
  "filter_columns_in_tables prompt_dict table_columns_selection_generator =
     (case prompt_dict of
        Some p \<Rightarrow> ([p], Some (table_columns_selection_generator p))
      | None \<Rightarrow> ([], None))"

section \<open>The result: \<^verbatim>\<open>construct_retrieval_results\<close>\<close>

record retrieval_output = flags +
  retrieval_results :: "retrieval_result list"

type_synonym selection = "(key \<times> pyval) list"

text \<open>The loop that fills \<^verbatim>\<open>reformated_json\<close>.\<close>

fun reformat :: "pyval list \<Rightarrow> selection \<Rightarrow> error + selection" where
  "reformat [] reformated_json = Inr reformated_json"
| "reformat (table # rest) reformated_json =
     (case getitem table ''table_contents'' of
        Inl e \<Rightarrow> Inl e
      | Inr contents \<Rightarrow>
          (case getitem table ''table_name'' of
             Inl e \<Rightarrow> Inl e
           | Inr n \<Rightarrow>
               (case hkey n of
                  None \<Rightarrow> Inl TypeError
                | Some k \<Rightarrow> reformat rest (AList.update k contents reformated_json))))"

text \<open>Lines 349 to 358: \<^verbatim>\<open>columns_and_tables_needed\<close>.\<close>

definition columns_and_tables_needed :: "generation \<Rightarrow> error + selection" where
  "columns_and_tables_needed g =
     (case replies g of
        [] \<Rightarrow> Inl IndexError
      | reply # _ \<Rightarrow>
          (case reply of
             None \<Rightarrow> Inl JSONDecodeError
           | Some v \<Rightarrow>
               (case getitem v ''results'' of
                  Inl e \<Rightarrow> Inl e
                | Inr results \<Rightarrow>
                    (case py_iter results of
                       Inl e \<Rightarrow> Inl e
                     | Inr tables \<Rightarrow> reformat tables []))))"

fun hkeys :: "pyval list \<Rightarrow> key list option" where
  "hkeys [] = Some []"
| "hkeys (x # xs) =
     (case hkey x of
        None \<Rightarrow> None
      | Some k \<Rightarrow> (case hkeys xs of None \<Rightarrow> None | Some ks \<Rightarrow> Some (k # ks)))"

text \<open>\<^verbatim>\<open>set(columns_and_tables_needed[name]["columns"])\<close>\<close>

definition selected_columns :: "selection \<Rightarrow> key \<Rightarrow> error + key set" where
  "selected_columns needed k =
     (case map_of needed k of
        None \<Rightarrow> Inl KeyError
      | Some contents \<Rightarrow>
          (case getitem contents ''columns'' of
             Inl e \<Rightarrow> Inl e
           | Inr cols \<Rightarrow>
               (case py_iter cols of
                  Inl e \<Rightarrow> Inl e
                | Inr xs \<Rightarrow>
                    (case hkeys xs of None \<Rightarrow> Inl TypeError | Some ks \<Rightarrow> Inr (set ks)))))"

fun pruned_tables ::
  "deps \<Rightarrow> selection \<Rightarrow> pydict list \<Rightarrow> retrieval_result list \<times> bool \<times> bool
     \<Rightarrow> error + (retrieval_result list \<times> bool \<times> bool)" where
  "pruned_tables D needed [] st = Inr st"
| "pruned_tables D needed (table_schema # rest) (rs, hc, hj) =
     (case map_of table_schema ''type'' of
        None \<Rightarrow> Inl KeyError
      | Some t \<Rightarrow>
          if t = PStr ''TABLE'' then
            (case map_of table_schema ''name'' of
               None \<Rightarrow> Inl KeyError
             | Some n \<Rightarrow>
                 (case hkey n of
                    None \<Rightarrow> Inl TypeError
                  | Some k \<Rightarrow>
                      if k \<in> fst ` set needed then
                        (case selected_columns needed k of
                           Inl e \<Rightarrow> Inl e
                         | Inr cols \<Rightarrow>
                             (case build_table_ddl D table_schema (Some cols)
                                     (Some (fst ` set needed)) of
                                Inl e \<Rightarrow> Inl e
                              | Inr (ddl, c, j) \<Rightarrow>
                                  pruned_tables D needed rest
                                    (rs @ [\<lparr>table_name = n, table_ddl = ddl\<rparr>], hc \<or> c, hj \<or> j)))
                      else pruned_tables D needed rest (rs, hc, hj)))
          else pruned_tables D needed rest (rs, hc, hj))"

fun pruned_documents ::
  "deps \<Rightarrow> selection \<Rightarrow> document list \<Rightarrow> retrieval_result list \<times> bool
     \<Rightarrow> error + (retrieval_result list \<times> bool)" where
  "pruned_documents D needed [] st = Inr st"
| "pruned_documents D needed (document # rest) (rs, hm) =
     (if KStr (meta_name document) \<in> fst ` set needed then
        (case content_value document of
           None \<Rightarrow> Inl DecodeError
         | Some c \<Rightarrow>
             (case getitem c ''type'' of
                Inl e \<Rightarrow> Inl e
              | Inr t \<Rightarrow>
                  if t = PStr ''METRIC'' then
                    (case getitem c ''name'' of
                       Inl e \<Rightarrow> Inl e
                     | Inr n \<Rightarrow>
                         (case build_metric_ddl D c of
                            Inl e \<Rightarrow> Inl e
                          | Inr ddl \<Rightarrow>
                              pruned_documents D needed rest
                                (rs @ [\<lparr>table_name = n, table_ddl = ddl\<rparr>], True)))
                  else if t = PStr ''VIEW'' then
                    (case getitem c ''name'' of
                       Inl e \<Rightarrow> Inl e
                     | Inr n \<Rightarrow>
                         (case build_view_ddl D c of
                            Inl e \<Rightarrow> Inl e
                          | Inr ddl \<Rightarrow>
                              pruned_documents D needed rest
                                (rs @ [\<lparr>table_name = n, table_ddl = ddl\<rparr>], hm)))
                  else pruned_documents D needed rest (rs, hm)))
      else pruned_documents D needed rest (rs, hm))"

text \<open>
  \<open>filtered\<close> is the parameter \<^verbatim>\<open>filter_columns_in_tables\<close> of the source: \<open>None\<close> is the
  empty dict, which takes the \<^verbatim>\<open>else\<close> branch.
\<close>

definition construct_retrieval_results ::
  "deps \<Rightarrow> check_result \<Rightarrow> generation option \<Rightarrow> pydict list \<Rightarrow> document list
     \<Rightarrow> error + retrieval_output" where
  "construct_retrieval_results D check filtered schemas documents =
     (case filtered of
        Some g \<Rightarrow>
          (case columns_and_tables_needed g of
             Inl e \<Rightarrow> Inl e
           | Inr needed \<Rightarrow>
               (case pruned_tables D needed schemas ([], False, False) of
                  Inl e \<Rightarrow> Inl e
                | Inr (rs1, hc, hj) \<Rightarrow>
                    (case pruned_documents D needed documents (rs1, False) of
                       Inl e \<Rightarrow> Inl e
                     | Inr (rs, hm) \<Rightarrow>
                         Inr \<lparr>has_calculated_field = hc, has_metric = hm, has_json_field = hj,
                              retrieval_results = rs\<rparr>)))
      | None \<Rightarrow>
          Inr \<lparr>has_calculated_field = has_calculated_field check,
               has_metric = has_metric check,
               has_json_field = has_json_field check,
               retrieval_results = db_schemas check\<rparr>)"

section \<open>The stages after the schema documents are fetched\<close>

text \<open>
  \<^verbatim>\<open>DbSchemaRetrieval.run\<close> asks the driver for the node \<^verbatim>\<open>construct_retrieval_results\<close>;
  the driver evaluates the nodes it depends on, each one once, and passes every node the
  outputs that its parameters name. An exception in a node ends the run. The first
  component of the result lists the prompts sent to the generator, in order; the second
  is the output of the run or the exception that ended it.
\<close>

definition execute ::
  "deps \<Rightarrow> document list \<Rightarrow> string \<Rightarrow> ask_history list \<Rightarrow> (string \<Rightarrow> nat list)
     \<Rightarrow> (string \<Rightarrow> string list \<Rightarrow> string) \<Rightarrow> (string \<Rightarrow> generation) \<Rightarrow> bool \<Rightarrow> int
     \<Rightarrow> string list \<times> (error + retrieval_output)" where
  "execute D documents query histories encoding prompt_builder generator
       enable_column_pruning context_window_size =
     (case construct_db_schemas documents of
        Inl e \<Rightarrow> ([], Inl e)
      | Inr schemas \<Rightarrow>
          (case check_using_db_schemas_without_pruning D schemas documents encoding
                  enable_column_pruning context_window_size of
             Inl e \<Rightarrow> ([], Inl e)
           | Inr check \<Rightarrow>
               (case prompt D query schemas prompt_builder check histories of
                  Inl e \<Rightarrow> ([], Inl e)
                | Inr p \<Rightarrow>
                    (fst (filter_columns_in_tables p generator),
                     construct_retrieval_results D check
                       (snd (filter_columns_in_tables p generator)) schemas documents))))"

section \<open>Query embedding and table retrieval\<close>

text \<open>A filter of the document store: a condition on a field, or a group of filters.\<close>

datatype filter_value = StrValue string | NamesValue "string list option"

datatype filter_expr =
    Condition string string filter_value
  | Group string "filter_expr list"

text \<open>
  Modelled from the spec: the embedder is a component that is not under src/; by its
  interface \<^verbatim>\<open>embed(text) -> {embedding: vector of float}\<close> its output is a dict that holds
  the key \<^verbatim>\<open>embedding\<close>, so it is never the empty dict. \<open>embedder q\<close> is the vector under
  that key. The result of the stage is \<open>None\<close> for the empty dict; its first component
  lists the texts the embedder was called with.
\<close>

definition embedding ::
  "string \<Rightarrow> (string \<Rightarrow> 'f list) \<Rightarrow> ask_history list \<Rightarrow> string list \<times> 'f list option" where
  "embedding query embedder histories =
     (if query \<noteq> [] then
        ([py_join newline (map question histories) @ newline @ query],
         Some (embedder (py_join newline (map question histories) @ newline @ query)))
      else ([], None))"

text \<open>
  \<open>table_retriever v f\<close> stands for \<^verbatim>\<open>table_retriever.run(query_embedding=v, filters=f)\<close>.
  \<open>tables\<close> is \<^verbatim>\<open>Optional[list[str]]\<close>.
\<close>

definition table_retrieval ::
  "'f list option \<Rightarrow> string \<Rightarrow> string list option \<Rightarrow> ('f list \<Rightarrow> filter_expr \<Rightarrow> 'r) \<Rightarrow> 'r" where
  "table_retrieval embedded project_id tables table_retriever =
     (let conditions =
            [Condition ''type'' ''=='' (StrValue ''TABLE_DESCRIPTION'')]
            @ (if project_id \<noteq> [] then [Condition ''project_id'' ''=='' (StrValue project_id)]
               else [])
      in case embedded of
           Some v \<Rightarrow> table_retriever v (Group ''AND'' conditions)
         | None \<Rightarrow>
             table_retriever []
               (Group ''AND'' (conditions @ [Condition ''name'' ''in'' (NamesValue tables)])))"

section \<open>The reply the generator is asked for\<close>

text \<open>
  The pydantic models \<^verbatim>\<open>MatchingTableContents\<close>, \<^verbatim>\<open>MatchingTable\<close> and
  \<^verbatim>\<open>RetrievalResults\<close>, and the JSON value of a reply of that shape.
\<close>

datatype matching_table_contents =
  MatchingTableContents (chain_of_thought_reasoning: "string list") (columns: "string list")

datatype matching_table =
  MatchingTable (matching_name: string) (table_contents: matching_table_contents)
    (table_selection_reason: string)

definition contents_json :: "matching_table_contents \<Rightarrow> pyval" where
  "contents_json c =
     PDict [(''chain_of_thought_reasoning'', PList (map PStr (chain_of_thought_reasoning c))),
            (''columns'', PList (map PStr (columns c)))]"

definition table_json :: "matching_table \<Rightarrow> pyval" where
  "table_json t =
     PDict [(''table_name'', PStr (matching_name t)),
            (''table_contents'', contents_json (table_contents t)),
            (''table_selection_reason'', PStr (table_selection_reason t))]"

definition results_json :: "matching_table list \<Rightarrow> pyval" where
  "results_json ts = PDict [(''results'', PList (map table_json ts))]"

section \<open>Notions used in the statements\<close>

text \<open>A reassembled schema of type TABLE, and a document that holds a metric or a view.\<close>

definition is_table :: "pydict \<Rightarrow> bool" where
  "is_table s = (map_of s ''type'' = Some (PStr ''TABLE''))"

definition is_metric_or_view :: "document \<Rightarrow> bool" where
  "is_metric_or_view d =
     (case content_value d of
        Some c \<Rightarrow>
          getitem c ''type'' = Inr (PStr ''METRIC'') \<or> getitem c ''type'' = Inr (PStr ''VIEW'')
      | None \<Rightarrow> False)"

text \<open>
  The first reply of the generator decodes as JSON and the decoded value has the key
  \<^verbatim>\<open>results\<close>.
\<close>

definition reply_has_results :: "generation \<Rightarrow> bool" where
  "reply_has_results g =
     (case replies g of
        [] \<Rightarrow> False
      | reply # _ \<Rightarrow>
          (case reply of
             None \<Rightarrow> False
           | Some v \<Rightarrow> (case getitem v ''results'' of Inl e \<Rightarrow> False | Inr r \<Rightarrow> True)))"

text \<open>
  With \<open>tables\<close> the set of the names in the pruning selection: a reassembled schema of
  type TABLE whose name is in the selection, and a document whose name is.
\<close>

definition selected_schema :: "key set \<Rightarrow> pydict \<Rightarrow> bool" where
  "selected_schema tables s =
     (is_table s \<and>
      (case map_of s ''name'' of
         None \<Rightarrow> False
       | Some n \<Rightarrow> (case hkey n of None \<Rightarrow> False | Some k \<Rightarrow> k \<in> tables)))"

definition selected_document :: "key set \<Rightarrow> document \<Rightarrow> bool" where
  "selected_document tables d = (KStr (meta_name d) \<in> tables)"





text \<open>An entry of a reply with the duplicates among its columns removed.\<close>

definition distinct_columns :: "matching_table \<Rightarrow> matching_table" where
  "distinct_columns t =
     MatchingTable (matching_name t)
       (MatchingTableContents (chain_of_thought_reasoning (table_contents t))
          (remdups (columns (table_contents t))))
       (table_selection_reason t)"

text \<open>The selection a reply of the expected shape stands for, entry by entry.\<close>

definition selection_entry :: "matching_table \<Rightarrow> key \<times> pyval" where
  "selection_entry t = (KStr (matching_name t), contents_json (table_contents t))"

text \<open>
  The kind of a fragment (the value under \<^verbatim>\<open>type\<close> in its content), a TABLE fragment and a
  TABLE\_COLUMNS fragment of the table \<open>n\<close>, and a fragment whose content has the key
  \<^verbatim>\<open>columns\<close>.
\<close>

definition fragment_type :: "document \<Rightarrow> pyval option" where
  "fragment_type d =
     (case content_value d of Some (PDict kvs) \<Rightarrow> map_of kvs ''type'' | _ \<Rightarrow> None)"

definition is_table_fragment :: "string \<Rightarrow> document \<Rightarrow> bool" where
  "is_table_fragment n d = (meta_name d = n \<and> fragment_type d = Some (PStr ''TABLE''))"

definition is_columns_fragment :: "string \<Rightarrow> document \<Rightarrow> bool" where
  "is_columns_fragment n d =
     (meta_name d = n \<and> fragment_type d = Some (PStr ''TABLE_COLUMNS''))"

definition carries_columns :: "document \<Rightarrow> bool" where
  "carries_columns d =
     (case content_value d of Some (PDict kvs) \<Rightarrow> map_of kvs ''columns'' \<noteq> None | _ \<Rightarrow> False)"

text \<open>
  What the fragments \<open>ds\<close> say about an entry \<open>e\<close> kept under the name \<open>n\<close>: some fragment
  of that name was merged; a type comes from a TABLE fragment; columns come from a
  TABLE\_COLUMNS fragment, from a TABLE fragment that carries columns, or from the merge
  of a second TABLE fragment.
\<close>

definition accounted :: "document list \<Rightarrow> string \<Rightarrow> pydict \<Rightarrow> bool" where
  "accounted ds n e =
     ((\<exists>d\<in>set ds. is_table_fragment n d \<or> is_columns_fragment n d)
      \<and> (map_of e ''type'' \<noteq> None \<longrightarrow> (\<exists>d\<in>set ds. is_table_fragment n d))
      \<and> (map_of e ''columns'' \<noteq> None \<longrightarrow>
           (\<exists>d\<in>set ds. is_columns_fragment n d)
           \<or> (\<exists>d\<in>set ds. is_table_fragment n d \<and> carries_columns d)
           \<or> 2 \<le> length (filter (is_table_fragment n) ds)))"

text \<open>
  A fragment on which a round of the reassembly loop cannot fail by itself: its content
  is a dict with a type, and with columns if the type is TABLE\_COLUMNS.
\<close>

definition decodable_fragment :: "document \<Rightarrow> bool" where
  "decodable_fragment d =
     (case content_value d of
        Some (PDict kvs) \<Rightarrow>
          (case map_of kvs ''type'' of
             None \<Rightarrow> False
           | Some t \<Rightarrow> t = PStr ''TABLE_COLUMNS'' \<longrightarrow> map_of kvs ''columns'' \<noteq> None)
      | _ \<Rightarrow> False)"

text \<open>
  The fragments of the table \<open>n\<close>, the dict a fragment holds and the columns it carries.
  \<open>list_columns\<close> is the type of a fragment of a table: the columns it carries, if any,
  are a list.
\<close>

definition is_fragment :: "string \<Rightarrow> document \<Rightarrow> bool" where
  "is_fragment n d = (is_table_fragment n d \<or> is_columns_fragment n d)"

definition fragment_dict :: "document \<Rightarrow> pydict" where
  "fragment_dict d = (case content_value d of Some (PDict kvs) \<Rightarrow> kvs | _ \<Rightarrow> [])"

definition carried :: "document \<Rightarrow> pyval option" where
  "carried d = map_of (fragment_dict d) ''columns''"

definition list_columns :: "document \<Rightarrow> bool" where
  "list_columns d =
     (is_fragment (meta_name d) d \<longrightarrow>
        (case carried d of None \<Rightarrow> True | Some (PList xs) \<Rightarrow> True | Some _ \<Rightarrow> False))"

definition list_items :: "pyval \<Rightarrow> pyval list" where
  "list_items v = (case v of PList xs \<Rightarrow> xs | _ \<Rightarrow> [])"

text \<open>
  What the fragments \<open>ds\<close> hold for the table \<open>n\<close>, read without running the loop: the
  dict of the last TABLE fragment; the columns carried by the first fragment when that is
  a TABLE fragment; the columns of the TABLE\_COLUMNS fragments, concatenated in their
  order of arrival. The merged columns are the second followed by the third; when there
  is no TABLE\_COLUMNS fragment they are the second, and the empty list when that is
  absent but the table has several TABLE fragments. \<open>merged_entry\<close> puts them into the
  dict of the last TABLE fragment.
\<close>

definition last_table :: "document list \<Rightarrow> string \<Rightarrow> pydict option" where
  "last_table ds n =
     (case rev (filter (is_table_fragment n) ds) of
        [] \<Rightarrow> None
      | t # _ \<Rightarrow> Some (fragment_dict t))"

definition leading_columns :: "document list \<Rightarrow> string \<Rightarrow> pyval option" where
  "leading_columns ds n =
     (case filter (is_fragment n) ds of
        [] \<Rightarrow> None
      | f # _ \<Rightarrow> if is_table_fragment n f then carried f else None)"

definition batch_columns :: "document list \<Rightarrow> string \<Rightarrow> pyval list" where
  "batch_columns ds n =
     concat (map (\<lambda>c. case carried c of None \<Rightarrow> [] | Some v \<Rightarrow> list_items v)
               (filter (is_columns_fragment n) ds))"

definition merged_columns :: "document list \<Rightarrow> string \<Rightarrow> pyval option" where
  "merged_columns ds n =
     (if filter (is_columns_fragment n) ds \<noteq> [] then
        Some (PList ((case leading_columns ds n of None \<Rightarrow> [] | Some v \<Rightarrow> list_items v)
                     @ batch_columns ds n))
      else
        (case leading_columns ds n of
           Some v \<Rightarrow> Some v
         | None \<Rightarrow>
             if 2 \<le> length (filter (is_table_fragment n) ds) then Some (PList []) else None))"

definition merged_entry :: "document list \<Rightarrow> string \<Rightarrow> pydict option" where
  "merged_entry ds n =
     (case last_table ds n of
        None \<Rightarrow>
          (case merged_columns ds n of None \<Rightarrow> None | Some cols \<Rightarrow> Some [(''columns'', cols)])
      | Some t \<Rightarrow>
          (case merged_columns ds n of
             None \<Rightarrow> Some t
           | Some cols \<Rightarrow> Some (AList.update ''columns'' cols t)))"

text \<open>
  What two arrivals of the fragments of the table \<open>n\<close> must agree on to reassemble to
  the same descriptor: the last TABLE fragment and the merged columns (a table without
  TABLE fragment is never surfaced, so nothing is asked of it). The names of the tables
  in the order in which a fragment of theirs is first seen.
\<close>

definition table_summary :: "document list \<Rightarrow> string \<Rightarrow> (pydict \<times> pyval option) option" where
  "table_summary ds n =
     (case last_table ds n of None \<Rightarrow> None | Some t \<Rightarrow> Some (t, merged_columns ds n))"

definition first_seen :: "document list \<Rightarrow> string list" where
  "first_seen ds =
     rev (remdups (rev (map meta_name (filter (\<lambda>d. is_fragment (meta_name d) d) ds))))"

text \<open>
  A reply that lines 349 to 358 read without an exception: it decodes, the decoded value
  has the key \<^verbatim>\<open>results\<close>, the value under it can be iterated, and every element has the
  keys \<^verbatim>\<open>table_contents\<close> and \<^verbatim>\<open>table_name\<close>, the name being hashable.
\<close>

definition readable_entry :: "pyval \<Rightarrow> bool" where
  "readable_entry table =
     (case getitem table ''table_contents'' of
        Inl e \<Rightarrow> False
      | Inr contents \<Rightarrow>
          (case getitem table ''table_name'' of Inl e \<Rightarrow> False | Inr n \<Rightarrow> hkey n \<noteq> None))"

definition readable_reply :: "generation \<Rightarrow> bool" where
  "readable_reply g =
     (case replies g of
        [] \<Rightarrow> False
      | reply # _ \<Rightarrow>
          (case reply of
             None \<Rightarrow> False
           | Some v \<Rightarrow>
               (case getitem v ''results'' of
                  Inl e \<Rightarrow> False
                | Inr results \<Rightarrow>
                    (case py_iter results of
                       Inl e \<Rightarrow> False
                     | Inr tables \<Rightarrow> list_all readable_entry tables))))"

text \<open>
  The shape that the generator is asked for, after the models \<^verbatim>\<open>RetrievalResults\<close>,
  \<^verbatim>\<open>MatchingTable\<close> and \<^verbatim>\<open>MatchingTableContents\<close> (lines 426 to 438): an object whose
  \<^verbatim>\<open>results\<close> is a list of objects with a string \<^verbatim>\<open>table_name\<close>, a string
  \<^verbatim>\<open>table_selection_reason\<close> and an object \<^verbatim>\<open>table_contents\<close> that holds two lists of
  strings, \<^verbatim>\<open>chain_of_thought_reasoning\<close> and \<^verbatim>\<open>columns\<close>.
\<close>

definition is_str :: "pyval \<Rightarrow> bool" where
  "is_str v = (case v of PStr s \<Rightarrow> True | _ \<Rightarrow> False)"

definition is_str_list :: "pyval \<Rightarrow> bool" where
  "is_str_list v = (case v of PList xs \<Rightarrow> list_all is_str xs | _ \<Rightarrow> False)"

definition contents_shape :: "pyval \<Rightarrow> bool" where
  "contents_shape v =
     (case v of
        PDict c \<Rightarrow>
          (case map_of c ''chain_of_thought_reasoning'' of
             None \<Rightarrow> False
           | Some r \<Rightarrow>
               (case map_of c ''columns'' of
                  None \<Rightarrow> False
                | Some cols \<Rightarrow> is_str_list r \<and> is_str_list cols))
      | _ \<Rightarrow> False)"

definition matching_table_shape :: "pyval \<Rightarrow> bool" where
  "matching_table_shape v =
     (case v of
        PDict t \<Rightarrow>
          (case map_of t ''table_name'' of
             None \<Rightarrow> False
           | Some n \<Rightarrow>
               (case map_of t ''table_contents'' of
                  None \<Rightarrow> False
                | Some c \<Rightarrow>
                    (case map_of t ''table_selection_reason'' of
                       None \<Rightarrow> False
                     | Some r \<Rightarrow> is_str n \<and> contents_shape c \<and> is_str r)))
      | _ \<Rightarrow> False)"

definition expected_shape :: "pyval \<Rightarrow> bool" where
  "expected_shape v =
     (case v of
        PDict d \<Rightarrow>
          (case map_of d ''results'' of
             Some (PList ts) \<Rightarrow> list_all matching_table_shape ts
           | _ \<Rightarrow> False)
      | _ \<Rightarrow> False)"

definition reply_as_expected :: "generation \<Rightarrow> bool" where
  "reply_as_expected g =
     (case replies g of
        [] \<Rightarrow> False
      | reply # _ \<Rightarrow> (case reply of None \<Rightarrow> False | Some v \<Rightarrow> expected_shape v))"

text \<open>
  The key under which the selection is asked for the columns of a schema, and a TABLE
  schema that the selection names but for which line 370 finds no set of columns.
\<close>

definition schema_key :: "pydict \<Rightarrow> key option" where
  "schema_key s = (case map_of s ''name'' of None \<Rightarrow> None | Some n \<Rightarrow> hkey n)"

definition unusable_columns :: "selection \<Rightarrow> pydict \<Rightarrow> bool" where
  "unusable_columns needed s =
     (is_table s \<and>
      (case schema_key s of
         None \<Rightarrow> False
       | Some k \<Rightarrow> k \<in> fst ` set needed \<and> isl (selected_columns needed k)))"

section \<open>Example inputs\<close>

text \<open>
  Documents as the indexer writes them, and collaborators to run the functions on them.
  The theorems below hold for every choice of the collaborators.
\<close>

definition column :: "string \<Rightarrow> pyval" where
  "column n =
     PDict [(''type'', PStr ''COLUMN''), (''name'', PStr n), (''data_type'', PStr ''integer''),
            (''comment'', PStr [])]"

definition table_document :: "string \<Rightarrow> document" where
  "table_document n =
     \<lparr>content_value =
        Some (PDict [(''type'', PStr ''TABLE''), (''name'', PStr n), (''comment'', PStr [])]),
      meta_name = n\<rparr>"

definition columns_document :: "string \<Rightarrow> pyval list \<Rightarrow> document" where
  "columns_document n cs =
     \<lparr>content_value = Some (PDict [(''type'', PStr ''TABLE_COLUMNS''), (''columns'', PList cs)]),
      meta_name = n\<rparr>"

definition view_document :: "string \<Rightarrow> document" where
  "view_document n =
     \<lparr>content_value =
        Some (PDict [(''type'', PStr ''VIEW''), (''name'', PStr n), (''comment'', PStr []),
                     (''statement'', PStr ''SELECT 1'')]),
      meta_name = n\<rparr>"

definition undecodable_document :: "string \<Rightarrow> document" where
  "undecodable_document n = \<lparr>content_value = None, meta_name = n\<rparr>"

text \<open>The descriptor that one table document and one columns document reassemble to.\<close>

definition table_schema :: "string \<Rightarrow> pyval list \<Rightarrow> pydict" where
  "table_schema n cs =
     [(''type'', PStr ''TABLE''), (''name'', PStr n), (''comment'', PStr []),
      (''columns'', PList cs)]"

text \<open>
  A stand-in for \<^verbatim>\<open>build_table_ddl\<close>: it lists the names of the columns of the schema,
  only the selected ones when a selection is given, and raises when the schema has no
  name or no list of columns.
\<close>

fun example_columns :: "key set option \<Rightarrow> pyval list \<Rightarrow> string list" where
  "example_columns selected [] = []"
| "example_columns selected (c # cs) =
     (case getitem c ''name'' of
        Inr (PStr n) \<Rightarrow>
          (case selected of
             None \<Rightarrow> n # example_columns selected cs
           | Some S \<Rightarrow>
               if KStr n \<in> S then n # example_columns selected cs
               else example_columns selected cs)
      | _ \<Rightarrow> example_columns selected cs)"

definition example_build_table_ddl ::
  "pydict \<Rightarrow> key set option \<Rightarrow> key set option \<Rightarrow> error + (string \<times> bool \<times> bool)" where
  "example_build_table_ddl c selected tabs =
     (case map_of c ''name'' of
        Some (PStr n) \<Rightarrow>
          (case map_of c ''columns'' of
             Some (PList cs) \<Rightarrow>
               Inr (''CREATE TABLE '' @ n @ '' ('' @ py_join '', '' (example_columns selected cs)
                    @ '');'', False, False)
           | _ \<Rightarrow> Inl DdlError)
      | _ \<Rightarrow> Inl DdlError)"

definition example_py_str :: "pyval \<Rightarrow> string" where
  "example_py_str v = ''None''"

text \<open>Lowering of the ASCII letters, for the examples.\<close>

definition ascii_lower :: "char \<Rightarrow> char" where
  "ascii_lower c =
     (let n = (of_char c :: nat) in if 65 \<le> n \<and> n \<le> 90 then char_of (n + 32) else c)"

definition example_str_lower :: "string \<Rightarrow> string" where
  "example_str_lower s = map ascii_lower s"

definition example_deps :: deps where
  "example_deps =
     \<lparr>build_table_ddl = example_build_table_ddl, get_engine_supported_data_type = id,
      clean_up_new_lines = id, py_str = example_py_str, str_lower = example_str_lower\<rparr>"

text \<open>One token for every character.\<close>

definition example_encoding :: "string \<Rightarrow> nat list" where
  "example_encoding s = map of_char s"

definition example_prompt_builder :: "string \<Rightarrow> string list \<Rightarrow> string" where
  "example_prompt_builder q ddls = py_join '' '' ddls @ q"

text \<open>A generator whose reply selects the column \<open>id\<close> of the table \<open>orders\<close>.\<close>

definition example_generator :: "string \<Rightarrow> generation" where
  "example_generator p =
     \<lparr>replies =
        [Some (results_json
                 [MatchingTable ''orders'' (MatchingTableContents [''join key''] [''id''])
                    ''asked for''])]\<rparr>"

text \<open>Collaborators for the examples of the first two stages and of a broken reply.\<close>

definition example_embedder :: "string \<Rightarrow> nat list" where
  "example_embedder q = [3, 7]"

definition example_table_retriever :: "nat list \<Rightarrow> filter_expr \<Rightarrow> nat list \<times> filter_expr" where
  "example_table_retriever v f = (v, f)"

definition broken_generator :: "string \<Rightarrow> generation" where
  "broken_generator p = \<lparr>replies = [None]\<rparr>"


definition repeating_tables :: "matching_table list" where
  "repeating_tables =
     [MatchingTable ''orders'' (MatchingTableContents [''first''] [''amount'']) ''once'',
      MatchingTable ''orders'' (MatchingTableContents [''a'', ''b''] [''id'', ''id''])
        ''twice'']"

definition example_schemas :: "pydict list" where
  "example_schemas =
     [table_schema ''orders'' [column ''id'', column ''amount''],
      table_schema ''customers'' [column ''id'']]"

definition example_documents :: "document list" where
  "example_documents =
     [table_document ''orders'', columns_document ''orders'' [column ''id'', column ''amount''],
      table_document ''customers'', columns_document ''customers'' [column ''id''],
      view_document ''v'']"

definition pruning_required :: check_result where
  "pruning_required =
     \<lparr>has_calculated_field = False, has_metric = False, has_json_field = False,
        db_schemas = [], tokens = 88\<rparr>"

text \<open>
  Replies that are JSON with the key \<^verbatim>\<open>results\<close> but not of the expected shape: an object
  in place of the list; an entry without reasoning and without selection reason; an entry
  for \<open>orders\<close> without columns.
\<close>

definition misshapen_generator :: "string \<Rightarrow> generation" where
  "misshapen_generator p = \<lparr>replies = [Some (PDict [(''results'', PDict [])])]\<rparr>"

definition bare_generator :: "string \<Rightarrow> generation" where
  "bare_generator p =
     \<lparr>replies =
        [Some (PDict [(''results'',
                 PList [PDict [(''table_name'', PStr ''orders''),
                               (''table_contents'',
                                PDict [(''columns'', PList [PStr ''id''])])]])])]\<rparr>"

definition columnless_generator :: "string \<Rightarrow> generation" where
  "columnless_generator p =
     \<lparr>replies =
        [Some (PDict [(''results'',
                 PList [PDict [(''table_name'', PStr ''orders''),
                               (''table_contents'', PDict [])]])])]\<rparr>"

text \<open>
  A TABLE fragment with another comment, a TABLE fragment that carries columns, and
  arrivals of the fragments of two tables.
\<close>

definition commented_table_document :: "string \<Rightarrow> string \<Rightarrow> document" where
  "commented_table_document n c =
     \<lparr>content_value =
        Some (PDict [(''type'', PStr ''TABLE''), (''name'', PStr n), (''comment'', PStr c)]),
      meta_name = n\<rparr>"

definition carrying_table_document :: "string \<Rightarrow> pyval list \<Rightarrow> document" where
  "carrying_table_document n cs =
     \<lparr>content_value =
        Some (PDict [(''type'', PStr ''TABLE''), (''name'', PStr n), (''comment'', PStr []),
                     (''columns'', PList cs)]),
      meta_name = n\<rparr>"

definition first_arrival :: "document list" where
  "first_arrival =
     [table_document ''orders'', columns_document ''orders'' [column ''id''],
      columns_document ''orders'' [column ''amount''],
      table_document ''customers'', columns_document ''customers'' [column ''id'']]"

definition second_arrival :: "document list" where
  "second_arrival =
     [columns_document ''customers'' [column ''id''],
      columns_document ''orders'' [column ''id''], table_document ''customers'',
      table_document ''orders'', columns_document ''orders'' [column ''amount''],
      table_document ''orders'']"

section \<open>The query embedding and the table filter\<close>

text \<open>
  C9: with an empty query the embedding stage calls the embedder on nothing and returns
  the empty result, and table retrieval then runs with the empty query embedding and the
  filter extended by the condition \<^verbatim>\<open>name in tables\<close>; with a non-empty query the embedder
  is called once, on the history questions joined by newlines, a newline and the query,
  and table retrieval runs with the embedder's vector and no name condition.
\<close>

theorem query_embedding_and_table_filter:
  "embedding [] embedder histories = ([], None)
   \<and> table_retrieval (snd (embedding [] embedder histories)) project_id tables table_retriever
       = table_retriever []
           (Group ''AND''
              ([Condition ''type'' ''=='' (StrValue ''TABLE_DESCRIPTION'')]
               @ (if project_id \<noteq> []
                  then [Condition ''project_id'' ''=='' (StrValue project_id)] else [])
               @ [Condition ''name'' ''in'' (NamesValue tables)]))
   \<and> (query \<noteq> [] \<longrightarrow>
        embedding query embedder histories
          = ([py_join newline (map question histories) @ newline @ query],
             Some (embedder (py_join newline (map question histories) @ newline @ query)))
      \<and> table_retrieval (snd (embedding query embedder histories)) project_id tables
            table_retriever
          = table_retriever
              (embedder (py_join newline (map question histories) @ newline @ query))
              (Group ''AND''
                 ([Condition ''type'' ''=='' (StrValue ''TABLE_DESCRIPTION'')]
                  @ (if project_id \<noteq> []
                     then [Condition ''project_id'' ''=='' (StrValue project_id)] else []))))"
  by (simp add: embedding_def table_retrieval_def)

theorem query_embedding_and_table_filter_witness:
  "embedding [] example_embedder [\<lparr>question = ''first''\<rparr>] = ([], None)
   \<and> table_retrieval (snd (embedding [] example_embedder [\<lparr>question = ''first''\<rparr>]))
         ''p1'' (Some [''orders'']) example_table_retriever
       = ([], Group ''AND''
               [Condition ''type'' ''=='' (StrValue ''TABLE_DESCRIPTION''),
                Condition ''project_id'' ''=='' (StrValue ''p1''),
                Condition ''name'' ''in'' (NamesValue (Some [''orders'']))])
   \<and> embedding ''how many'' example_embedder [\<lparr>question = ''first''\<rparr>]
       = ([''first'' @ newline @ ''how many''], Some [3, 7])
   \<and> table_retrieval (snd (embedding ''how many'' example_embedder [\<lparr>question = ''first''\<rparr>]))
         ''p1'' (Some [''orders'']) example_table_retriever
       = ([3, 7], Group ''AND''
               [Condition ''type'' ''=='' (StrValue ''TABLE_DESCRIPTION''),
                Condition ''project_id'' ''=='' (StrValue ''p1'')])"
  using query_embedding_and_table_filter
    [of example_embedder "[\<lparr>question = ''first''\<rparr>]" "''p1''" "Some [''orders'']"
        example_table_retriever "''how many''"]
  by (auto simp: example_table_retriever_def example_embedder_def newline_def)

section \<open>A fragment that cannot be decoded\<close>

lemma merge_fragments_undecodable:
  "d \<in> set documents \<Longrightarrow> content_value d = None \<Longrightarrow> \<exists>e. merge_fragments documents db = Inl e"
proof (induction documents arbitrary: db)
  case Nil
  then show ?case by simp
next
  case (Cons a documents)
  show ?case
  proof (cases "merge_fragment a db")
    case (Inl e)
    then show ?thesis by simp
  next
    case (Inr db')
    with Cons.prems have "d \<noteq> a" by (auto simp: merge_fragment_def)
    with Cons.prems have "d \<in> set documents" by simp
    from Cons.IH [OF this Cons.prems(2)] Inr show ?thesis by simp
  qed
qed

lemma unpruned_documents_undecodable:
  "d \<in> set documents \<Longrightarrow> content_value d = None
     \<Longrightarrow> \<exists>e. unpruned_documents D documents st = Inl e"
proof (induction documents arbitrary: st)
  case Nil
  then show ?case by simp
next
  case (Cons a documents)
  obtain rs hm where st: "st = (rs, hm)" by (cases st)
  show ?case
  proof (cases "d = a")
    case True
    with Cons.prems st show ?thesis by simp
  next
    case False
    with Cons.prems have "d \<in> set documents" by simp
    from Cons.IH [OF this Cons.prems(2)] st show ?thesis
      by (auto split: option.splits sum.splits)
  qed
qed

text \<open>
  C1, as stated, fails: \<^verbatim>\<open>ast.literal_eval\<close> is called with no handler around it. With
  an undecodable fragment after the two fragments of the table \<open>orders\<close>, reassembly
  raises; without it the table is reassembled.
\<close>

theorem malformed_fragment_counterexample:
  "construct_db_schemas
     [table_document ''orders'', columns_document ''orders'' [column ''id''],
      undecodable_document ''orders''] = Inl DecodeError
   \<and> construct_db_schemas
       [table_document ''orders'', columns_document ''orders'' [column ''id'']]
     = Inr [table_schema ''orders'' [column ''id'']]"
  by code_simp

text \<open>
  C1, amended: when the content of some retrieved fragment cannot be decoded, the
  reassembly raises, the budget evaluator (which decodes every fragment again) raises,
  and the run of the stages ends with an error before the generator is called: no
  fragment is dropped and no result for the remaining fragments is produced.
\<close>

theorem undecodable_fragment_aborts:
  assumes "d \<in> set documents" and "content_value d = None"
  shows "(\<exists>e. construct_db_schemas documents = Inl e)
    \<and> (\<exists>e. check_using_db_schemas_without_pruning D schemas documents encoding pruning window
             = Inl e)
    \<and> (\<exists>e. execute D documents query histories encoding prompt_builder generator pruning window
             = ([], Inl e))"
proof -
  from merge_fragments_undecodable [OF assms] obtain e
    where "merge_fragments documents [] = Inl e"
    by blast
  then have c: "construct_db_schemas documents = Inl e"
    by (simp add: construct_db_schemas_def reassembled_def)
  then have x: "execute D documents query histories encoding prompt_builder generator
      pruning window = ([], Inl e)"
    by (simp add: execute_def)
  have "\<exists>e. check_using_db_schemas_without_pruning D schemas documents encoding pruning window
      = Inl e"
  proof (cases "unpruned_tables D schemas ([], False, False)")
    case (Inl e')
    then show ?thesis by (simp add: check_using_db_schemas_without_pruning_def)
  next
    case (Inr st)
    obtain rs1 hc hj where "st = (rs1, hc, hj)" by (cases st)
    with Inr unpruned_documents_undecodable [OF assms, of D "(rs1, False)"] show ?thesis
      by (auto simp: check_using_db_schemas_without_pruning_def)
  qed
  with c x show ?thesis by blast
qed

theorem undecodable_fragment_aborts_witness:
  "(\<exists>e. construct_db_schemas [table_document ''orders'', undecodable_document ''orders'']
           = Inl e)
    \<and> (\<exists>e. check_using_db_schemas_without_pruning example_deps []
             [table_document ''orders'', undecodable_document ''orders'']
             example_encoding False 100 = Inl e)
    \<and> (\<exists>e. execute example_deps [table_document ''orders'', undecodable_document ''orders'']
             ''q'' [] example_encoding example_prompt_builder example_generator False 100
           = ([], Inl e))"
  using undecodable_fragment_aborts
    [of "undecodable_document ''orders''"
        "[table_document ''orders'', undecodable_document ''orders'']"]
  by (simp add: undecodable_document_def)

section \<open>Reassembly\<close>

text \<open>The five ways in which a round of the loop returns.\<close>

lemma merge_fragment_cases:
  assumes "merge_fragment d db = Inr db'"
  obtains
    (table_new) kvs where "content_value d = Some (PDict kvs)"
      "map_of kvs ''type'' = Some (PStr ''TABLE'')" "map_of db (meta_name d) = None"
      "db' = AList.update (meta_name d) kvs db"
  | (table_old) kvs old where "content_value d = Some (PDict kvs)"
      "map_of kvs ''type'' = Some (PStr ''TABLE'')" "map_of db (meta_name d) = Some old"
      "db' = AList.update (meta_name d)
               (AList.update ''columns''
                  (case map_of old ''columns'' of None \<Rightarrow> PList [] | Some cs \<Rightarrow> cs) kvs) db"
  | (columns_new) kvs cols where "content_value d = Some (PDict kvs)"
      "map_of kvs ''type'' = Some (PStr ''TABLE_COLUMNS'')" "map_of db (meta_name d) = None"
      "map_of kvs ''columns'' = Some cols"
      "db' = AList.update (meta_name d) [(''columns'', cols)] db"
  | (columns_old) kvs cols old cs where "content_value d = Some (PDict kvs)"
      "map_of kvs ''type'' = Some (PStr ''TABLE_COLUMNS'')" "map_of db (meta_name d) = Some old"
      "map_of kvs ''columns'' = Some cols"
      "db' = AList.update (meta_name d) (AList.update ''columns'' cs old) db"
      "map_of old ''columns'' = None \<and> cs = cols
       \<or> (\<exists>oc. map_of old ''columns'' = Some oc \<and> py_iadd oc cols = Inr cs)"
  | (other) kvs t where "content_value d = Some (PDict kvs)" "map_of kvs ''type'' = Some t"
      "t \<noteq> PStr ''TABLE''" "t \<noteq> PStr ''TABLE_COLUMNS''" "db' = db"
proof -
  from assms obtain kvs t where c: "content_value d = Some (PDict kvs)"
    and t: "map_of kvs ''type'' = Some t"
    by (auto simp: merge_fragment_def split: option.splits pyval.splits)
  consider "t = PStr ''TABLE''" | "t = PStr ''TABLE_COLUMNS''"
    | "t \<noteq> PStr ''TABLE''" "t \<noteq> PStr ''TABLE_COLUMNS''"
    by blast
  then show ?thesis
  proof cases
    case 1
    with assms c t show ?thesis
      by (cases "map_of db (meta_name d)")
        (auto simp: merge_fragment_def intro: table_new table_old)
  next
    case 2
    with assms c t show ?thesis
      by (cases "map_of db (meta_name d)")
        (auto simp: merge_fragment_def split: option.splits sum.splits
          intro: columns_new columns_old)
  next
    case 3
    with assms c t show ?thesis
      by (auto simp: merge_fragment_def intro: other)
  qed
qed


lemma merge_fragment_distinct:
  "merge_fragment d db = Inr db' \<Longrightarrow> distinct (map fst db) \<Longrightarrow> distinct (map fst db')"
  by (erule merge_fragment_cases) (simp_all add: distinct_update)

lemma merge_fragments_distinct:
  "merge_fragments ds db = Inr db' \<Longrightarrow> distinct (map fst db) \<Longrightarrow> distinct (map fst db')"
proof (induction ds arbitrary: db)
  case Nil
  then show ?case by simp
next
  case (Cons d ds)
  from Cons.prems(1) obtain db1 where 1: "merge_fragment d db = Inr db1"
    and 2: "merge_fragments ds db1 = Inr db'"
    by (auto split: sum.splits)
  from Cons.IH [OF 2 merge_fragment_distinct [OF 1 Cons.prems(2)]] show ?case .
qed

section \<open>What reassembly surfaces\<close>

lemma accounted_snoc: "accounted ds n e \<Longrightarrow> accounted (ds @ [d]) n e"
  unfolding accounted_def by (auto 0 3)

lemma merge_fragment_accounted:
  assumes "merge_fragment d db = Inr db'"
    and inv: "\<And>n e. map_of db n = Some e \<Longrightarrow> accounted pre n e"
    and new: "map_of db' n = Some e"
  shows "accounted (pre @ [d]) n e"
proof (cases "n = meta_name d")
  case False
  from assms(1) have "map_of db' n = map_of db n"
    by (rule merge_fragment_cases) (simp_all add: update_conv' False)
  with new inv accounted_snoc show ?thesis by simp
next
  case True
  from assms(1) show ?thesis
  proof (cases rule: merge_fragment_cases)
    case (table_new kvs)
    with new True have "e = kvs" by (simp add: update_conv')
    with table_new True show ?thesis
      by (auto simp: accounted_def is_table_fragment_def fragment_type_def carries_columns_def)
  next
    case (table_old kvs old)
    have d: "is_table_fragment n d"
      using table_old True by (simp add: is_table_fragment_def fragment_type_def)
    from inv [OF table_old(3)] True
    consider x where "x \<in> set pre" "is_columns_fragment n x"
      | x where "x \<in> set pre" "is_table_fragment n x"
      by (auto simp: accounted_def)
    then have cols: "(\<exists>x\<in>set (pre @ [d]). is_columns_fragment n x)
        \<or> 2 \<le> length (filter (is_table_fragment n) (pre @ [d]))"
    proof cases
      case 1
      then show ?thesis by auto
    next
      case 2
      then have "filter (is_table_fragment n) pre \<noteq> []"
        by (auto simp: filter_empty_conv)
      then have "1 \<le> length (filter (is_table_fragment n) pre)"
        by (cases "filter (is_table_fragment n) pre") simp_all
      with d show ?thesis by simp
    qed
    have some: "\<exists>x\<in>set (pre @ [d]). is_table_fragment n x" using d by auto
    from some cols show ?thesis
      unfolding accounted_def by blast
  next
    case (columns_new kvs cols)
    with new True have "e = [(''columns'', cols)]" by (simp add: update_conv')
    with columns_new True show ?thesis
      by (auto simp: accounted_def is_columns_fragment_def fragment_type_def)
  next
    case (columns_old kvs cols old cs)
    with new True have e: "e = AList.update ''columns'' cs old" by (simp add: update_conv')
    have d: "is_columns_fragment n d"
      using columns_old True by (simp add: is_columns_fragment_def fragment_type_def)
    from inv [OF columns_old(3)] True
    have "map_of old ''type'' \<noteq> None \<longrightarrow> (\<exists>x\<in>set pre. is_table_fragment n x)"
      by (simp add: accounted_def)
    with d e show ?thesis
      unfolding accounted_def by (auto simp: update_conv')
  next
    case (other kvs t)
    with new inv accounted_snoc show ?thesis by simp
  qed
qed

lemma merge_fragments_accounted:
  "merge_fragments ds db = Inr db'
     \<Longrightarrow> (\<And>n e. map_of db n = Some e \<Longrightarrow> accounted pre n e)
     \<Longrightarrow> map_of db' n = Some e \<Longrightarrow> accounted (pre @ ds) n e"
proof (induction ds arbitrary: db pre)
  case Nil
  then show ?case by simp
next
  case (Cons d ds)
  from Cons.prems(1) obtain db1 where 1: "merge_fragment d db = Inr db1"
    and 2: "merge_fragments ds db1 = Inr db'"
    by (auto split: sum.splits)
  have "accounted ((pre @ [d]) @ ds) n e"
  proof (rule Cons.IH [OF 2 _ Cons.prems(3)])
    fix m x assume "map_of db1 m = Some x"
    with 1 Cons.prems(2) show "accounted (pre @ [d]) m x"
      by (rule merge_fragment_accounted)
  qed
  then show ?case by simp
qed

lemma reassembled_accounted:
  assumes "reassembled documents = Inr db" and "(n, v) \<in> set db"
  shows "complete_schema v \<and> accounted documents n v"
proof -
  from assms(1) obtain db0 where m: "merge_fragments documents [] = Inr db0"
    and db: "db = filter (\<lambda>kv. complete_schema (snd kv)) db0"
    by (auto simp: reassembled_def split: sum.splits)
  from merge_fragments_distinct [OF m] have "distinct (map fst db0)" by simp
  with assms(2) db have "map_of db0 n = Some v" and c: "complete_schema v" by auto
  from merge_fragments_accounted [OF m _ this(1), of "[]"] c show ?thesis by simp
qed

text \<open>
  C6, as stated, fails in its second half: two TABLE fragments of the table \<open>orders\<close> and
  no TABLE\_COLUMNS fragment. The merge of the second one attaches the default
  \<^verbatim>\<open>.get("columns", [])\<close>, so the entry has both keys and is surfaced, with no column.
\<close>

theorem repeated_table_fragment_counterexample:
  "construct_db_schemas [table_document ''orders'', table_document ''orders'']
     = Inr [table_schema ''orders'' []]"
  by code_simp

text \<open>
  C6, amended: every descriptor that reassembly surfaces has a type and a columns list,
  and it is kept under a name \<open>n\<close> that has a TABLE fragment and, besides, a
  TABLE\_COLUMNS fragment, or a TABLE fragment whose content carries columns, or at least
  two TABLE fragments. So a name with one TABLE fragment without columns and no
  TABLE\_COLUMNS fragment is not surfaced, and neither is a name without TABLE fragment.
\<close>

theorem surfaced_schemas_complete:
  assumes "construct_db_schemas documents = Inr schemas"
  shows "\<exists>db. reassembled documents = Inr db \<and> schemas = map snd db
    \<and> (\<forall>(n, v) \<in> set db.
          map_of v ''type'' \<noteq> None \<and> map_of v ''columns'' \<noteq> None
        \<and> (\<exists>d\<in>set documents. is_table_fragment n d)
        \<and> ((\<exists>d\<in>set documents. is_columns_fragment n d)
           \<or> (\<exists>d\<in>set documents. is_table_fragment n d \<and> carries_columns d)
           \<or> 2 \<le> length (filter (is_table_fragment n) documents)))"
proof -
  from assms obtain db where r: "reassembled documents = Inr db" and s: "schemas = map snd db"
    by (auto simp: construct_db_schemas_def split: sum.splits)
  have "map_of v ''type'' \<noteq> None \<and> map_of v ''columns'' \<noteq> None
        \<and> (\<exists>d\<in>set documents. is_table_fragment n d)
        \<and> ((\<exists>d\<in>set documents. is_columns_fragment n d)
           \<or> (\<exists>d\<in>set documents. is_table_fragment n d \<and> carries_columns d)
           \<or> 2 \<le> length (filter (is_table_fragment n) documents))"
    if "(n, v) \<in> set db" for n v
    using reassembled_accounted [OF r that]
    unfolding complete_schema_def accounted_def by blast
  with r s show ?thesis by blast
qed

theorem surfaced_schemas_complete_witness:
  "\<exists>db. reassembled
          [table_document ''orders'', columns_document ''orders'' [column ''id''],
           table_document ''customers''] = Inr db
    \<and> [table_schema ''orders'' [column ''id'']] = map snd db
    \<and> (\<forall>(n, v) \<in> set db.
          map_of v ''type'' \<noteq> None \<and> map_of v ''columns'' \<noteq> None
        \<and> (\<exists>d\<in>set [table_document ''orders'', columns_document ''orders'' [column ''id''],
                       table_document ''customers'']. is_table_fragment n d)
        \<and> ((\<exists>d\<in>set [table_document ''orders'', columns_document ''orders'' [column ''id''],
                        table_document ''customers'']. is_columns_fragment n d)
           \<or> (\<exists>d\<in>set [table_document ''orders'', columns_document ''orders'' [column ''id''],
                          table_document ''customers'']. is_table_fragment n d \<and> carries_columns d)
           \<or> 2 \<le> length (filter (is_table_fragment n)
                  [table_document ''orders'', columns_document ''orders'' [column ''id''],
                   table_document ''customers''])))"
proof -
  have h: "construct_db_schemas
      [table_document ''orders'', columns_document ''orders'' [column ''id''],
       table_document ''customers'']
    = Inr [table_schema ''orders'' [column ''id'']]"
    by code_simp
  from surfaced_schemas_complete [OF h] show ?thesis .
qed


section \<open>The order of the fragments\<close>

text \<open>
  The dict built by the loop of \<^verbatim>\<open>construct_db_schemas\<close> has a closed form. Its keys are the
  names of the fragments in the order in which they are first seen. The entry of a name is
  \<open>merged_entry\<close>: the content of the last TABLE fragment of the name, with, under
  \<^verbatim>\<open>columns\<close>, the columns carried by the first fragment when that is a TABLE fragment,
  followed by the columns of the TABLE\_COLUMNS fragments in their order of arrival.
\<close>

lemma merge_fragment_decodable:
  "merge_fragment d db = Inr db' \<Longrightarrow> decodable_fragment d"
  by (erule merge_fragment_cases) (simp_all add: decodable_fragment_def)

lemma merge_fragments_decodable:
  "merge_fragments ds db = Inr db' \<Longrightarrow> \<forall>d\<in>set ds. decodable_fragment d"
proof (induction ds arbitrary: db)
  case Nil
  then show ?case by simp
next
  case (Cons d ds)
  from Cons.prems obtain db1 where 1: "merge_fragment d db = Inr db1"
    and 2: "merge_fragments ds db1 = Inr db'"
    by (auto split: sum.splits)
  from merge_fragment_decodable [OF 1] Cons.IH [OF 2] show ?case by simp
qed

lemma last_table_snoc:
  "last_table (pre @ [d]) n
     = (if is_table_fragment n d then Some (fragment_dict d) else last_table pre n)"
  by (simp add: last_table_def)

lemma leading_columns_snoc:
  "leading_columns (pre @ [d]) n
     = (if filter (is_fragment n) pre = []
        then (if is_table_fragment n d then carried d else None)
        else leading_columns pre n)"
  by (cases "filter (is_fragment n) pre")
    (auto simp: leading_columns_def is_fragment_def)

lemma batch_columns_snoc:
  "batch_columns (pre @ [d]) n
     = batch_columns pre n
       @ (if is_columns_fragment n d
          then (case carried d of None \<Rightarrow> [] | Some v \<Rightarrow> list_items v) else [])"
  by (simp add: batch_columns_def)

lemma no_fragment_iff:
  "filter (is_fragment n) ds = []
     \<longleftrightarrow> filter (is_table_fragment n) ds = [] \<and> filter (is_columns_fragment n) ds = []"
  by (auto simp: filter_empty_conv is_fragment_def)

lemma last_table_None: "last_table ds n = None \<longleftrightarrow> filter (is_table_fragment n) ds = []"
  by (cases "rev (filter (is_table_fragment n) ds)") (simp_all add: last_table_def)

lemma merged_entry_None: "merged_entry ds n = None \<longleftrightarrow> filter (is_fragment n) ds = []"
proof
  assume "merged_entry ds n = None"
  then have "last_table ds n = None" "merged_columns ds n = None"
    by (auto simp: merged_entry_def split: option.splits)
  then show "filter (is_fragment n) ds = []"
    by (auto simp: no_fragment_iff last_table_None merged_columns_def split: if_splits)
next
  assume a: "filter (is_fragment n) ds = []"
  then have "filter (is_table_fragment n) ds = []" "filter (is_columns_fragment n) ds = []"
    by (simp_all add: no_fragment_iff)
  with a show "merged_entry ds n = None"
    by (simp add: merged_entry_def merged_columns_def leading_columns_def last_table_def)
qed

lemma merged_columns_unchanged:
  "\<not> is_table_fragment n d \<Longrightarrow> \<not> is_columns_fragment n d
     \<Longrightarrow> merged_columns (pre @ [d]) n = merged_columns pre n"
  by (simp add: merged_columns_def leading_columns_def batch_columns_def is_fragment_def)

lemma merged_entry_unchanged:
  "\<not> is_table_fragment n d \<Longrightarrow> \<not> is_columns_fragment n d
     \<Longrightarrow> merged_entry (pre @ [d]) n = merged_entry pre n"
  by (simp add: merged_entry_def merged_columns_unchanged last_table_def
      cong: option.case_cong)

lemma merged_entry_other:
  "meta_name d \<noteq> n \<Longrightarrow> merged_entry (pre @ [d]) n = merged_entry pre n"
  by (rule merged_entry_unchanged)
    (simp_all add: is_table_fragment_def is_columns_fragment_def)


lemma fragments_without_batches:
  "filter (is_columns_fragment n) ds = []
     \<Longrightarrow> filter (is_fragment n) ds = filter (is_table_fragment n) ds"
  by (rule filter_cong) (auto simp: filter_empty_conv is_fragment_def)

lemma leading_list:
  assumes "\<forall>d\<in>set ds. list_columns d" and "leading_columns ds n = Some v"
  shows "\<exists>l. v = PList l"
proof -
  from assms(2) obtain f fs where f: "filter (is_fragment n) ds = f # fs"
    and t: "is_table_fragment n f" and c: "carried f = Some v"
    by (auto simp: leading_columns_def split: list.splits if_splits)
  from f have "f \<in> set (filter (is_fragment n) ds)" by simp
  then have "f \<in> set ds" by simp
  with assms(1) have "list_columns f" by blast
  moreover from t have "is_fragment (meta_name f) f"
    by (simp add: is_fragment_def is_table_fragment_def)
  ultimately show ?thesis using c
    by (auto simp: list_columns_def split: pyval.splits)
qed

lemma merged_columns_list:
  assumes "\<forall>d\<in>set ds. list_columns d" and "merged_columns ds n = Some x"
  shows "x = PList ((case leading_columns ds n of None \<Rightarrow> [] | Some v \<Rightarrow> list_items v)
                     @ batch_columns ds n)"
proof (cases "filter (is_columns_fragment n) ds = []")
  case False
  with assms(2) show ?thesis by (simp add: merged_columns_def)
next
  case True
  then have b: "batch_columns ds n = []" by (simp add: batch_columns_def)
  show ?thesis
  proof (cases "leading_columns ds n")
    case None
    with True assms(2) b show ?thesis
      by (auto simp: merged_columns_def split: if_splits)
  next
    case (Some v)
    with leading_list [OF assms(1) Some] obtain l where "v = PList l" by blast
    with True Some assms(2) b show ?thesis
      by (auto simp: merged_columns_def list_items_def)
  qed
qed

lemma entry_columns:
  assumes "merged_entry ds n = Some old"
  shows "map_of old ''columns'' = merged_columns ds n"
proof (cases "merged_columns ds n")
  case (Some c)
  with assms show ?thesis
    by (auto simp: merged_entry_def update_conv' split: option.splits)
next
  case None
  with assms have t: "last_table ds n = Some old"
    by (auto simp: merged_entry_def split: option.splits)
  from None have c: "filter (is_columns_fragment n) ds = []"
    and l: "leading_columns ds n = None"
    and k: "\<not> 2 \<le> length (filter (is_table_fragment n) ds)"
    by (auto simp: merged_columns_def split: if_splits option.splits)
  from t have "filter (is_table_fragment n) ds \<noteq> []"
    using last_table_None [of ds n] by auto
  with k obtain x where x: "filter (is_table_fragment n) ds = [x]"
    by (cases "filter (is_table_fragment n) ds") (auto simp: Suc_le_eq)
  with t have o: "old = fragment_dict x" by (simp add: last_table_def)
  from x have "is_table_fragment n x"
    by (metis filter_eq_ConsD)
  with l x fragments_without_batches [OF c] have "carried x = None"
    by (simp add: leading_columns_def)
  with o None show ?thesis by (simp add: carried_def)
qed

lemma first_seen_snoc:
  "first_seen (pre @ [d])
     = (if is_fragment (meta_name d) d \<and> meta_name d \<notin> set (first_seen pre)
        then first_seen pre @ [meta_name d] else first_seen pre)"
  by (simp add: first_seen_def)

lemma set_first_seen: "n \<in> set (first_seen ds) \<longleftrightarrow> filter (is_fragment n) ds \<noteq> []"
  by (auto simp: first_seen_def filter_empty_conv is_fragment_def is_table_fragment_def
      is_columns_fragment_def)

lemma char_update:
  assumes "\<And>n. map_of db n = merged_entry pre n"
    and "map fst db = first_seen pre"
    and "is_fragment (meta_name d) d"
    and "merged_entry (pre @ [d]) (meta_name d) = Some e"
  shows "map fst (AList.update (meta_name d) e db) = first_seen (pre @ [d])
    \<and> (\<forall>n. map_of (AList.update (meta_name d) e db) n = merged_entry (pre @ [d]) n)"
  using assms by (simp add: update_keys update_conv' merged_entry_other first_seen_snoc)


lemma merge_fragment_merged:
  assumes dec: "decodable_fragment d"
    and typed: "\<forall>x\<in>set pre. list_columns x"
    and typed_d: "list_columns d"
    and keys: "map fst db = first_seen pre"
    and char: "\<And>n. map_of db n = merged_entry pre n"
  shows "\<exists>db'. merge_fragment d db = Inr db' \<and> map fst db' = first_seen (pre @ [d])
    \<and> (\<forall>n. map_of db' n = merged_entry (pre @ [d]) n)"
proof -
  from dec obtain kvs t where c: "content_value d = Some (PDict kvs)"
    and t: "map_of kvs ''type'' = Some t"
    and cols: "t = PStr ''TABLE_COLUMNS'' \<Longrightarrow> map_of kvs ''columns'' \<noteq> None"
    by (auto simp: decodable_fragment_def split: option.splits pyval.splits)
  have fd: "fragment_dict d = kvs" using c by (simp add: fragment_dict_def)
  have cd: "carried d = map_of kvs ''columns''" using fd by (simp add: carried_def)
  let ?m = "meta_name d"
  consider (table) "t = PStr ''TABLE''" | (columns) "t = PStr ''TABLE_COLUMNS''"
    | (other) "t \<noteq> PStr ''TABLE''" "t \<noteq> PStr ''TABLE_COLUMNS''"
    by blast
  then show ?thesis
  proof cases
    case table
    then have it: "is_table_fragment ?m d" and nc: "\<not> is_columns_fragment ?m d"
      using c t by (simp_all add: is_table_fragment_def is_columns_fragment_def fragment_type_def)
    then have fr: "is_fragment ?m d" by (simp add: is_fragment_def)
    have lt: "last_table (pre @ [d]) ?m = Some kvs"
      using it fd by (simp add: last_table_snoc)
    show ?thesis
    proof (cases "filter (is_fragment ?m) pre = []")
      case True
      then have "map_of db ?m = None" by (simp add: char merged_entry_None)
      then have m: "merge_fragment d db = Inr (AList.update ?m kvs db)"
        using c t table by (simp add: merge_fragment_def)
      from True have e: "filter (is_table_fragment ?m) pre = []"
        "filter (is_columns_fragment ?m) pre = []"
        by (simp_all add: no_fragment_iff)
      have mc: "merged_columns (pre @ [d]) ?m = map_of kvs ''columns''"
        using True e it nc cd
        by (simp add: merged_columns_def leading_columns_snoc split: option.splits)
      have "merged_entry (pre @ [d]) ?m = Some kvs"
        using lt mc by (simp add: merged_entry_def update_triv split: option.splits)
      from char_update [OF char keys fr this] m show ?thesis by simp
    next
      case False
      then obtain old where o: "map_of db ?m = Some old" and me: "merged_entry pre ?m = Some old"
        using merged_entry_None [of pre ?m] char [of ?m] by (cases "merged_entry pre ?m") auto
      from entry_columns [OF me] have oc: "map_of old ''columns'' = merged_columns pre ?m" .
      let ?c = "case merged_columns pre ?m of None \<Rightarrow> PList [] | Some cs \<Rightarrow> cs"
      from o oc have m: "merge_fragment d db
          = Inr (AList.update ?m (AList.update ''columns'' ?c kvs) db)"
        using c t table by (simp add: merge_fragment_def)
      have tables: "filter (is_table_fragment ?m) pre \<noteq> []"
        if "filter (is_columns_fragment ?m) pre = []"
        using False that by (simp add: no_fragment_iff)
      have mc: "merged_columns (pre @ [d]) ?m = Some ?c"
      proof (cases "filter (is_columns_fragment ?m) pre = []")
        case nb: False
        with False nc show ?thesis
          by (simp add: merged_columns_def leading_columns_snoc batch_columns_snoc)
      next
        case nb: True
        from tables [OF nb] have "1 \<le> length (filter (is_table_fragment ?m) pre)"
          by (cases "filter (is_table_fragment ?m) pre") simp_all
        with nb False nc it show ?thesis
          by (simp add: merged_columns_def leading_columns_snoc split: option.splits)
      qed
      have "merged_entry (pre @ [d]) ?m = Some (AList.update ''columns'' ?c kvs)"
        using lt mc by (simp add: merged_entry_def)
      from char_update [OF char keys fr this] m show ?thesis by simp
    qed
  next
    case columns
    then have ic: "is_columns_fragment ?m d" and nt: "\<not> is_table_fragment ?m d"
      using c t by (simp_all add: is_table_fragment_def is_columns_fragment_def fragment_type_def)
    then have fr: "is_fragment ?m d" by (simp add: is_fragment_def)
    from cols [OF columns] obtain cs where cs: "map_of kvs ''columns'' = Some cs" by blast
    with typed_d fr cd obtain l where l: "cs = PList l"
      by (auto simp: list_columns_def split: pyval.splits)
    have lt: "last_table (pre @ [d]) ?m = last_table pre ?m"
      using nt by (simp add: last_table_snoc)
    have bc: "batch_columns (pre @ [d]) ?m = batch_columns pre ?m @ l"
      using ic cd cs l by (simp add: batch_columns_snoc list_items_def)
    show ?thesis
    proof (cases "filter (is_fragment ?m) pre = []")
      case True
      then have "map_of db ?m = None" by (simp add: char merged_entry_None)
      then have m: "merge_fragment d db = Inr (AList.update ?m [(''columns'', cs)] db)"
        using c t columns cs by (simp add: merge_fragment_def)
      from True have e: "filter (is_table_fragment ?m) pre = []"
        "filter (is_columns_fragment ?m) pre = []"
        by (simp_all add: no_fragment_iff)
      from e have "last_table pre ?m = None" "batch_columns pre ?m = []"
        by (simp_all add: last_table_None batch_columns_def)
      then have "merged_entry (pre @ [d]) ?m = Some [(''columns'', cs)]"
        using True ic nt lt bc l
        by (simp add: merged_entry_def merged_columns_def leading_columns_snoc)
      from char_update [OF char keys fr this] m show ?thesis by simp
    next
      case False
      then obtain old where o: "map_of db ?m = Some old" and me: "merged_entry pre ?m = Some old"
        using merged_entry_None [of pre ?m] char [of ?m] by (cases "merged_entry pre ?m") auto
      from entry_columns [OF me] have oc: "map_of old ''columns'' = merged_columns pre ?m" .
      have lc: "leading_columns (pre @ [d]) ?m = leading_columns pre ?m"
        using False by (simp add: leading_columns_snoc)
      let ?base = "case leading_columns pre ?m of None \<Rightarrow> [] | Some v \<Rightarrow> list_items v"
      have mc: "merged_columns (pre @ [d]) ?m = Some (PList (?base @ batch_columns pre ?m @ l))"
        using ic lc bc by (simp add: merged_columns_def)
      show ?thesis
      proof (cases "merged_columns pre ?m")
        case None
        with o oc have m: "merge_fragment d db
            = Inr (AList.update ?m (AList.update ''columns'' cs old) db)"
          using c t columns cs by (simp add: merge_fragment_def)
        from None have "filter (is_columns_fragment ?m) pre = []"
          "leading_columns pre ?m = None"
          by (auto simp: merged_columns_def split: if_splits option.splits)
        then have "batch_columns pre ?m = []" "?base = []"
          by (simp_all add: batch_columns_def)
        with mc l have mc': "merged_columns (pre @ [d]) ?m = Some cs" by simp
        from None me have "last_table pre ?m = Some old"
          by (auto simp: merged_entry_def split: option.splits)
        with lt mc' have "merged_entry (pre @ [d]) ?m = Some (AList.update ''columns'' cs old)"
          by (simp add: merged_entry_def)
        from char_update [OF char keys fr this] m show ?thesis by simp
      next
        case (Some x)
        from merged_columns_list [OF typed Some]
        have x: "x = PList (?base @ batch_columns pre ?m)" .
        let ?new = "PList (?base @ batch_columns pre ?m @ l)"
        have "py_iadd x cs = Inr ?new" using x l by simp
        with o oc Some have m: "merge_fragment d db
            = Inr (AList.update ?m (AList.update ''columns'' ?new old) db)"
          using c t columns cs by (simp add: merge_fragment_def)
        have "merged_entry (pre @ [d]) ?m = Some (AList.update ''columns'' ?new old)"
        proof (cases "last_table pre ?m")
          case None
          with me Some have "old = [(''columns'', x)]" by (simp add: merged_entry_def)
          with None lt mc show ?thesis by (simp add: merged_entry_def)
        next
          case (Some tb)
          with me \<open>merged_columns pre ?m = Some x\<close>
          have "old = AList.update ''columns'' x tb" by (simp add: merged_entry_def)
          with Some lt mc show ?thesis by (simp add: merged_entry_def)
        qed
        from char_update [OF char keys fr this] m show ?thesis by simp
      qed
    qed
  next
    case other
    then have m: "merge_fragment d db = Inr db"
      using c t by (simp add: merge_fragment_def)
    from other have nf: "\<not> is_table_fragment n d" "\<not> is_columns_fragment n d" for n
      using c t by (simp_all add: is_table_fragment_def is_columns_fragment_def fragment_type_def)
    then have "merged_entry (pre @ [d]) n = merged_entry pre n" for n
      by (simp add: merged_entry_unchanged)
    moreover have "first_seen (pre @ [d]) = first_seen pre"
      using nf by (simp add: first_seen_snoc is_fragment_def)
    ultimately show ?thesis using m keys char by simp
  qed
qed


lemma merge_fragments_merged:
  assumes "\<forall>d\<in>set ds. decodable_fragment d"
    and "\<forall>x\<in>set (pre @ ds). list_columns x"
    and "map fst db = first_seen pre"
    and "\<And>n. map_of db n = merged_entry pre n"
  shows "\<exists>db'. merge_fragments ds db = Inr db' \<and> map fst db' = first_seen (pre @ ds)
    \<and> (\<forall>n. map_of db' n = merged_entry (pre @ ds) n)"
  using assms
proof (induction ds arbitrary: db pre)
  case Nil
  then show ?case by simp
next
  case (Cons d ds)
  from Cons.prems(1) have dec: "decodable_fragment d" by simp
  from Cons.prems(2) have typed: "\<forall>x\<in>set pre. list_columns x" and typed_d: "list_columns d"
    by simp_all
  from merge_fragment_merged [OF dec typed typed_d Cons.prems(3,4)]
  obtain db1 where 1: "merge_fragment d db = Inr db1"
    and 2: "map fst db1 = first_seen (pre @ [d])"
    and 3: "\<And>n. map_of db1 n = merged_entry (pre @ [d]) n"
    by blast
  from Cons.prems(1) have 4: "\<forall>x\<in>set ds. decodable_fragment x" by simp
  from Cons.prems(2) have 5: "\<forall>x\<in>set ((pre @ [d]) @ ds). list_columns x" by simp
  from Cons.IH [OF 4 5 2 3] 1 show ?case by simp
qed

lemma merge_fragments_all:
  assumes "\<forall>d\<in>set ds. decodable_fragment d" and "\<forall>d\<in>set ds. list_columns d"
  shows "\<exists>db. merge_fragments ds [] = Inr db \<and> map fst db = first_seen ds
    \<and> (\<forall>n. map_of db n = merged_entry ds n)"
proof -
  have "map fst [] = first_seen []" by (simp add: first_seen_def)
  moreover have "map_of [] n = merged_entry [] n" for n
    by (simp add: merged_entry_None [of "[]" n, THEN iffD2])
  ultimately show ?thesis
    using merge_fragments_merged [of ds "[]" "[]"] assms by simp
qed

lemma keys_filter:
  "distinct (map fst xs)
     \<Longrightarrow> map fst (filter Q xs) = filter (\<lambda>n. n \<in> fst ` set (filter Q xs)) (map fst xs)"
proof (induction xs)
  case Nil
  then show ?case by simp
next
  case (Cons x xs)
  from Cons.prems have nx: "fst x \<notin> fst ` set xs" and d: "distinct (map fst xs)" by auto
  have ih: "map fst (filter Q xs) = filter (\<lambda>n. n \<in> fst ` set (filter Q xs)) (map fst xs)"
    using Cons.IH [OF d] .
  show ?case
  proof (cases "Q x")
    case True
    have "filter (\<lambda>n. n = fst x \<or> n \<in> fst ` set (filter Q xs)) (map fst xs)
        = filter (\<lambda>n. n \<in> fst ` set (filter Q xs)) (map fst xs)"
      using nx by (intro filter_cong) (auto simp: image_iff)
    with True ih show ?thesis by simp
  next
    case False
    from nx have "fst x \<notin> fst ` set (filter Q xs)" by auto
    with False ih show ?thesis by simp
  qed
qed

lemma complete_entry_summary:
  assumes "table_summary ds' n = table_summary ds n"
  shows "merged_entry ds' n = Some e \<and> complete_schema e
    \<longleftrightarrow> merged_entry ds n = Some e \<and> complete_schema e"
proof (cases "last_table ds n")
  case None
  with assms have "last_table ds' n = None"
    by (auto simp: table_summary_def split: option.splits)
  with None show ?thesis
    by (auto simp: merged_entry_def complete_schema_def split: option.splits)
next
  case (Some t)
  with assms have "last_table ds' n = Some t" "merged_columns ds' n = merged_columns ds n"
    by (auto simp: table_summary_def split: option.splits)
  with Some show ?thesis by (simp add: merged_entry_def)
qed

lemma no_fragment_of_absent_name:
  "n \<notin> meta_name ` set ds \<Longrightarrow> filter (is_fragment n) ds = []"
  by (auto simp: filter_empty_conv is_fragment_def is_table_fragment_def is_columns_fragment_def)

text \<open>
  C3, as stated, fails: the result of reassembly depends on the order of arrival and on
  repetitions. A TABLE\_COLUMNS fragment is appended with \<^verbatim>\<open>+=\<close> to the columns already
  there, so two such fragments of the table \<open>orders\<close> give the columns in their order of
  arrival, and a repeated fragment gives its columns twice. Of two TABLE fragments of one
  name the later one gives the descriptor its other keys (here the comment). And the
  columns carried by a TABLE fragment are kept when it comes first and dropped when a
  fragment of the table came before it.
\<close>

theorem fragment_order_counterexample:
  "construct_db_schemas
     [table_document ''orders'', columns_document ''orders'' [column ''id''],
      columns_document ''orders'' [column ''amount'']]
     = Inr [table_schema ''orders'' [column ''id'', column ''amount'']]
   \<and> construct_db_schemas
     [table_document ''orders'', columns_document ''orders'' [column ''amount''],
      columns_document ''orders'' [column ''id'']]
     = Inr [table_schema ''orders'' [column ''amount'', column ''id'']]
   \<and> table_schema ''orders'' [column ''id'', column ''amount'']
       \<noteq> table_schema ''orders'' [column ''amount'', column ''id'']
   \<and> construct_db_schemas
     [table_document ''orders'', columns_document ''orders'' [column ''id''],
      columns_document ''orders'' [column ''id'']]
     = Inr [table_schema ''orders'' [column ''id'', column ''id'']]
   \<and> construct_db_schemas
     [table_document ''orders'', columns_document ''orders'' [column ''id'']]
     = Inr [table_schema ''orders'' [column ''id'']]
   \<and> table_schema ''orders'' [column ''id'', column ''id'']
       \<noteq> table_schema ''orders'' [column ''id'']
   \<and> construct_db_schemas
     [commented_table_document ''orders'' ''old'', table_document ''orders'',
      columns_document ''orders'' [column ''id'']]
     = Inr [table_schema ''orders'' [column ''id'']]
   \<and> construct_db_schemas
     [table_document ''orders'', commented_table_document ''orders'' ''old'',
      columns_document ''orders'' [column ''id'']]
     = Inr [[(''type'', PStr ''TABLE''), (''name'', PStr ''orders''), (''comment'', PStr ''old''),
             (''columns'', PList [column ''id''])]]
   \<and> table_schema ''orders'' [column ''id'']
       \<noteq> [(''type'', PStr ''TABLE''), (''name'', PStr ''orders''), (''comment'', PStr ''old''),
           (''columns'', PList [column ''id''])]
   \<and> construct_db_schemas
     [carrying_table_document ''orders'' [column ''id''],
      columns_document ''orders'' [column ''amount'']]
     = Inr [table_schema ''orders'' [column ''id'', column ''amount'']]
   \<and> construct_db_schemas
     [columns_document ''orders'' [column ''amount''],
      carrying_table_document ''orders'' [column ''id'']]
     = Inr [table_schema ''orders'' [column ''amount'']]
   \<and> table_schema ''orders'' [column ''id'', column ''amount'']
       \<noteq> table_schema ''orders'' [column ''amount'']"
  by code_simp

text \<open>
  C3, amended: let reassembly return for the fragments \<open>documents\<close>, the columns carried by
  a fragment being a list, and let \<open>documents'\<close> hold the same fragments, in any order and
  with any repetitions, such that every table that has a TABLE fragment has the same last
  TABLE fragment and the same merged columns (those carried by its first fragment, when
  that is a TABLE fragment, followed by those of its TABLE\_COLUMNS fragments in their
  order of arrival) in both. Then reassembly returns for \<open>documents'\<close> too, with the same
  complete descriptors under the same names; and each output sequence lists its
  descriptors in the order in which the names of their tables are first seen among the
  fragments.
\<close>

theorem reassembly_arrival_order:
  assumes "construct_db_schemas documents = Inr schemas"
    and "\<forall>d\<in>set documents. list_columns d"
    and "set documents' = set documents"
    and "\<forall>d\<in>set documents.
           table_summary documents' (meta_name d) = table_summary documents (meta_name d)"
  shows "\<exists>db db'. reassembled documents = Inr db \<and> schemas = map snd db
    \<and> reassembled documents' = Inr db' \<and> construct_db_schemas documents' = Inr (map snd db')
    \<and> set db' = set db \<and> mset (map snd db') = mset schemas
    \<and> map fst db = filter (\<lambda>n. n \<in> fst ` set db) (first_seen documents)
    \<and> map fst db' = filter (\<lambda>n. n \<in> fst ` set db) (first_seen documents')"
proof -
  let ?Q = "\<lambda>kv. complete_schema (snd kv)"
  from assms(1) obtain db0 where m: "merge_fragments documents [] = Inr db0"
    and s: "schemas = map snd (filter ?Q db0)"
    by (auto simp: construct_db_schemas_def reassembled_def split: sum.splits)
  from merge_fragments_decodable [OF m] have dec: "\<forall>d\<in>set documents. decodable_fragment d" .
  from merge_fragments_all [OF dec assms(2)] m
  have k: "map fst db0 = first_seen documents"
    and c: "\<And>n. map_of db0 n = merged_entry documents n"
    by auto
  from dec assms(2,3) have "\<forall>d\<in>set documents'. decodable_fragment d"
    "\<forall>d\<in>set documents'. list_columns d"
    by simp_all
  from merge_fragments_all [OF this]
  obtain db0' where m': "merge_fragments documents' [] = Inr db0'"
    and k': "map fst db0' = first_seen documents'"
    and c': "\<And>n. map_of db0' n = merged_entry documents' n"
    by blast
  have same: "merged_entry documents' n = Some e \<and> complete_schema e
      \<longleftrightarrow> merged_entry documents n = Some e \<and> complete_schema e" for n e
  proof (cases "n \<in> meta_name ` set documents")
    case True
    with assms(4) show ?thesis by (auto intro!: complete_entry_summary)
  next
    case False
    with assms(3) no_fragment_of_absent_name [of n documents]
      no_fragment_of_absent_name [of n documents']
    show ?thesis by (simp add: merged_entry_None [THEN iffD2])
  qed
  have d: "distinct (map fst db0)" and d': "distinct (map fst db0')"
    by (simp_all add: k k' first_seen_def)
  have e': "set (filter ?Q db0') = set (filter ?Q db0)"
  proof (rule set_eqI)
    fix x :: "string \<times> pydict"
    obtain n e where x: "x = (n, e)" by (cases x)
    from d d' have "(n, e) \<in> set db0' \<longleftrightarrow> map_of db0' n = Some e"
      "(n, e) \<in> set db0 \<longleftrightarrow> map_of db0 n = Some e"
      by simp_all
    with same [of n e] c c' x show "x \<in> set (filter ?Q db0') \<longleftrightarrow> x \<in> set (filter ?Q db0)"
      by simp
  qed
  from d d' have "distinct (filter ?Q db0)" "distinct (filter ?Q db0')"
    by (simp_all add: distinct_map)
  with e' have "mset (filter ?Q db0') = mset (filter ?Q db0)"
    by (simp only: set_eq_iff_mset_eq_distinct)
  then have "image_mset snd (mset (filter ?Q db0')) = image_mset snd (mset (filter ?Q db0))"
    by simp
  then have ms: "mset (map snd (filter ?Q db0')) = mset (map snd (filter ?Q db0))"
    by (simp only: mset_map)
  have o: "map fst (filter ?Q db0)
      = filter (\<lambda>n. n \<in> fst ` set (filter ?Q db0)) (first_seen documents)"
    using keys_filter [OF d, of ?Q] k by simp
  have o': "map fst (filter ?Q db0')
      = filter (\<lambda>n. n \<in> fst ` set (filter ?Q db0)) (first_seen documents')"
    using keys_filter [OF d', of ?Q] k' e' by simp
  have "reassembled documents = Inr (filter ?Q db0)"
    "reassembled documents' = Inr (filter ?Q db0')"
    using m m' by (simp_all add: reassembled_def)
  with s ms e' o o' show ?thesis
    by (simp add: construct_db_schemas_def)
qed

theorem reassembly_arrival_order_witness:
  "\<exists>db db'. reassembled first_arrival = Inr db
    \<and> [table_schema ''orders'' [column ''id'', column ''amount''],
        table_schema ''customers'' [column ''id'']] = map snd db
    \<and> reassembled second_arrival = Inr db'
    \<and> construct_db_schemas second_arrival = Inr (map snd db')
    \<and> set db' = set db
    \<and> mset (map snd db')
        = mset [table_schema ''orders'' [column ''id'', column ''amount''],
                table_schema ''customers'' [column ''id'']]
    \<and> map fst db = filter (\<lambda>n. n \<in> fst ` set db) (first_seen first_arrival)
    \<and> map fst db' = filter (\<lambda>n. n \<in> fst ` set db) (first_seen second_arrival)"
proof -
  have a: "construct_db_schemas first_arrival
    = Inr [table_schema ''orders'' [column ''id'', column ''amount''],
           table_schema ''customers'' [column ''id'']]"
    by code_simp
  have b: "\<forall>d\<in>set first_arrival. list_columns d"
    by code_simp
  have c: "set second_arrival = set first_arrival"
    by code_simp
  have d: "\<forall>d\<in>set first_arrival.
      table_summary second_arrival (meta_name d) = table_summary first_arrival (meta_name d)"
    by code_simp
  from reassembly_arrival_order [OF a b c d] show ?thesis .
qed

section \<open>The token budget\<close>



text \<open>What a run of the evaluator that does not raise has computed.\<close>

lemma check_Inr:
  assumes "check_using_db_schemas_without_pruning D schemas documents encoding pruning window
    = Inr r"
  obtains rs1 hc hj rs hm where
    "unpruned_tables D schemas ([], False, False) = Inr (rs1, hc, hj)"
    "unpruned_documents D documents (rs1, False) = Inr (rs, hm)"
    "r = \<lparr>has_calculated_field = hc, has_metric = hm, has_json_field = hj,
          db_schemas =
            (if int (length (encoding (py_join '' '' (map table_ddl rs)))) > window \<or> pruning
             then [] else rs),
          tokens = length (encoding (py_join '' '' (map table_ddl rs)))\<rparr>"
  using assms
  by (auto simp: check_using_db_schemas_without_pruning_def Let_def
      split: sum.splits prod.splits if_splits)




text \<open>
  C5: for fixed schemas, fragments, tokenizer and force-pruning flag, if the evaluator
  returns non-empty candidate results ("pruning not required") at the window \<open>window\<close>,
  then at every window \<open>window' \<ge> window\<close> it returns the very same result, so the
  decision never moves back to "pruning required".
\<close>

theorem budget_monotone:
  assumes "check_using_db_schemas_without_pruning D schemas documents encoding pruning window
    = Inr r"
    and "db_schemas r \<noteq> []"
    and "window \<le> window'"
  shows "check_using_db_schemas_without_pruning D schemas documents encoding pruning window'
    = Inr r"
proof -
  from assms(1) obtain rs1 hc hj rs hm where
    t: "unpruned_tables D schemas ([], False, False) = Inr (rs1, hc, hj)" and
    d: "unpruned_documents D documents (rs1, False) = Inr (rs, hm)" and
    r: "r = \<lparr>has_calculated_field = hc, has_metric = hm, has_json_field = hj,
          db_schemas =
            (if int (length (encoding (py_join '' '' (map table_ddl rs)))) > window \<or> pruning
             then [] else rs),
          tokens = length (encoding (py_join '' '' (map table_ddl rs)))\<rparr>"
    by (rule check_Inr)
  from r assms(2)
  have now: "\<not> (int (length (encoding (py_join '' '' (map table_ddl rs)))) > window \<or> pruning)"
    by (auto split: if_splits)
  with assms(3)
  have "\<not> (int (length (encoding (py_join '' '' (map table_ddl rs)))) > window' \<or> pruning)"
    by auto
  with now t d r show ?thesis
    by (simp add: check_using_db_schemas_without_pruning_def)
qed

theorem budget_monotone_witness:
  "check_using_db_schemas_without_pruning example_deps [table_schema ''orders'' [column ''id'']]
       [table_document ''orders'', columns_document ''orders'' [column ''id''],
        view_document ''v'']
       example_encoding False 200
     = Inr \<lparr>has_calculated_field = False, has_metric = False, has_json_field = False,
            db_schemas =
              [\<lparr>table_name = PStr ''orders'', table_ddl = ''CREATE TABLE orders (id);''\<rparr>,
               \<lparr>table_name = PStr ''v'',
                 table_ddl = ''CREATE VIEW v'' @ newline @ ''AS SELECT 1''\<rparr>],
            tokens = 51\<rparr>"
proof -
  have h: "check_using_db_schemas_without_pruning example_deps
       [table_schema ''orders'' [column ''id'']]
       [table_document ''orders'', columns_document ''orders'' [column ''id''],
        view_document ''v'']
       example_encoding False 100
     = Inr \<lparr>has_calculated_field = False, has_metric = False, has_json_field = False,
            db_schemas =
              [\<lparr>table_name = PStr ''orders'', table_ddl = ''CREATE TABLE orders (id);''\<rparr>,
               \<lparr>table_name = PStr ''v'',
                 table_ddl = ''CREATE VIEW v'' @ newline @ ''AS SELECT 1''\<rparr>],
            tokens = 51\<rparr>"
    by code_simp
  from budget_monotone [OF h, of 200] show ?thesis by simp
qed

section \<open>When the generator is called\<close>

text \<open>
  C8, as stated, fails in its example: a request without query text does not give an
  empty prompt. Here the query is empty, the 33 tokens of the schema exceed the window
  10, and the generator is called with the prompt built from the schema and the lone
  newline; the result is the pruned one, with the column \<open>id\<close> that the reply selects.
\<close>

theorem empty_query_counterexample:
  "execute example_deps
     [table_document ''orders'', columns_document ''orders'' [column ''id'', column ''amount'']]
     [] [] example_encoding example_prompt_builder example_generator False 10
   = ([''CREATE TABLE orders (id, amount);'' @ newline],
      Inr \<lparr>has_calculated_field = False, has_metric = False, has_json_field = False,
           retrieval_results =
             [\<lparr>table_name = PStr ''orders'', table_ddl = ''CREATE TABLE orders (id);''\<rparr>]\<rparr>)"
  by code_simp

text \<open>
  C8, amended: in a request whose stages up to the prompt return, the generator is called
  exactly when the budget evaluator returned empty candidate results, and then once, with
  the prompt that was built (a prompt is built whatever the query text is). When the
  evaluator returned candidate results that are not empty, the prompt stage returns the
  empty dict, the generator is not called, and the assembler returns the evaluator's
  candidate results and flags unchanged.
\<close>

theorem pruning_call_only_without_candidates:
  assumes "construct_db_schemas documents = Inr schemas"
    and "check_using_db_schemas_without_pruning D schemas documents encoding pruning window
      = Inr chk"
    and "prompt D query schemas prompt_builder chk histories = Inr pr"
  shows "(db_schemas chk \<noteq> [] \<longrightarrow>
            pr = None
          \<and> execute D documents query histories encoding prompt_builder generator pruning window
              = ([], Inr \<lparr>has_calculated_field = has_calculated_field chk,
                          has_metric = has_metric chk,
                          has_json_field = has_json_field chk,
                          retrieval_results = db_schemas chk\<rparr>))
       \<and> (db_schemas chk = [] \<longrightarrow>
            (\<exists>p. pr = Some p
               \<and> fst (execute D documents query histories encoding prompt_builder generator
                        pruning window) = [p]))"
proof (cases "db_schemas chk = []")
  case True
  with assms(3) obtain p where "pr = Some p"
    by (auto simp: prompt_def split: sum.splits)
  with True assms show ?thesis
    by (simp add: execute_def filter_columns_in_tables_def)
next
  case False
  with assms(3) have "pr = None"
    by (simp add: prompt_def)
  with False assms show ?thesis
    by (simp add: execute_def filter_columns_in_tables_def construct_retrieval_results_def)
qed

theorem pruning_call_only_without_candidates_witness:
  "execute example_deps
     [table_document ''orders'', columns_document ''orders'' [column ''id'']]
     ''q'' [] example_encoding example_prompt_builder example_generator False 100
   = ([], Inr \<lparr>has_calculated_field = False, has_metric = False, has_json_field = False,
               retrieval_results =
                 [\<lparr>table_name = PStr ''orders'',
                    table_ddl = ''CREATE TABLE orders (id);''\<rparr>]\<rparr>)
   \<and> fst (execute example_deps
           [table_document ''orders'', columns_document ''orders'' [column ''id'']]
           ''q'' [] example_encoding example_prompt_builder example_generator True 100)
     = [''CREATE TABLE orders (id);'' @ newline @ ''q'']"
proof -
  have a: "construct_db_schemas
      [table_document ''orders'', columns_document ''orders'' [column ''id'']]
    = Inr [table_schema ''orders'' [column ''id'']]"
    by code_simp
  have b1: "check_using_db_schemas_without_pruning example_deps
      [table_schema ''orders'' [column ''id'']]
      [table_document ''orders'', columns_document ''orders'' [column ''id'']]
      example_encoding False 100
    = Inr \<lparr>has_calculated_field = False, has_metric = False, has_json_field = False,
           db_schemas =
             [\<lparr>table_name = PStr ''orders'', table_ddl = ''CREATE TABLE orders (id);''\<rparr>],
           tokens = 25\<rparr>"
    by code_simp
  have c1: "prompt example_deps ''q'' [table_schema ''orders'' [column ''id'']]
      example_prompt_builder
      \<lparr>has_calculated_field = False, has_metric = False, has_json_field = False,
         db_schemas =
           [\<lparr>table_name = PStr ''orders'', table_ddl = ''CREATE TABLE orders (id);''\<rparr>],
         tokens = 25\<rparr> []
    = Inr None"
    by code_simp
  have b2: "check_using_db_schemas_without_pruning example_deps
      [table_schema ''orders'' [column ''id'']]
      [table_document ''orders'', columns_document ''orders'' [column ''id'']]
      example_encoding True 100
    = Inr \<lparr>has_calculated_field = False, has_metric = False, has_json_field = False,
           db_schemas = [], tokens = 25\<rparr>"
    by code_simp
  have c2: "prompt example_deps ''q'' [table_schema ''orders'' [column ''id'']]
      example_prompt_builder
      \<lparr>has_calculated_field = False, has_metric = False, has_json_field = False,
         db_schemas = [], tokens = 25\<rparr> []
    = Inr (Some (''CREATE TABLE orders (id);'' @ newline @ ''q''))"
    by code_simp
  from pruning_call_only_without_candidates [OF a b1 c1, of example_generator]
    pruning_call_only_without_candidates [OF a b2 c2, of example_generator]
  show ?thesis by simp
qed


section \<open>A pruning reply that cannot be used\<close>

text \<open>
  Lines 349 to 358 return exactly for the readable replies, among them the replies of the
  expected shape; and the loop over the schemas raises when the selection names a TABLE
  schema without giving a set of columns for it.
\<close>

lemma reformat_readable:
  "(\<exists>needed. reformat tables acc = Inr needed) \<longleftrightarrow> list_all readable_entry tables"
proof (induction tables arbitrary: acc)
  case Nil
  then show ?case by simp
next
  case (Cons t rest)
  show ?case
  proof (cases "getitem t ''table_contents''")
    case (Inl e)
    then show ?thesis by (simp add: readable_entry_def)
  next
    case c: (Inr c)
    show ?thesis
    proof (cases "getitem t ''table_name''")
      case (Inl e)
      with c show ?thesis by (simp add: readable_entry_def)
    next
      case n: (Inr n)
      show ?thesis
      proof (cases "hkey n")
        case None
        with c n show ?thesis by (simp add: readable_entry_def)
      next
        case (Some k)
        with c n Cons.IH [of "AList.update k c acc"] show ?thesis
          by (simp add: readable_entry_def)
      qed
    qed
  qed
qed


lemma readable_reply_iff:
  "readable_reply g \<longleftrightarrow> (\<exists>needed. columns_and_tables_needed g = Inr needed)"
proof (cases "replies g")
  case Nil
  then show ?thesis by (simp add: readable_reply_def columns_and_tables_needed_def)
next
  case (Cons reply others)
  show ?thesis
  proof (cases reply)
    case None
    with Cons show ?thesis by (simp add: readable_reply_def columns_and_tables_needed_def)
  next
    case (Some v)
    show ?thesis
    proof (cases "getitem v ''results''")
      case (Inl e)
      with Cons Some show ?thesis
        by (simp add: readable_reply_def columns_and_tables_needed_def)
    next
      case r: (Inr results)
      show ?thesis
      proof (cases "py_iter results")
        case (Inl e)
        with Cons Some r show ?thesis
          by (simp add: readable_reply_def columns_and_tables_needed_def)
      next
        case (Inr tables)
        with Cons Some r reformat_readable [of tables "[]"] show ?thesis
          by (simp add: readable_reply_def columns_and_tables_needed_def)
      qed
    qed
  qed
qed

lemma unreadable_without_results: "\<not> reply_has_results g \<Longrightarrow> \<not> readable_reply g"
  by (simp add: readable_reply_def reply_has_results_def
      split: list.splits option.splits sum.splits)


lemma matching_table_readable: "matching_table_shape t \<Longrightarrow> readable_entry t"
proof -
  assume a: "matching_table_shape t"
  then obtain d where t: "t = PDict d"
    by (cases t) (simp_all add: matching_table_shape_def)
  from a t obtain n c where "map_of d ''table_name'' = Some n"
    "map_of d ''table_contents'' = Some c" "is_str n"
    by (auto simp: matching_table_shape_def split: option.splits)
  moreover from this obtain s where "n = PStr s"
    by (cases n) (simp_all add: is_str_def)
  ultimately show ?thesis by (simp add: t readable_entry_def)
qed

lemma expected_reply_readable: "reply_as_expected g \<Longrightarrow> readable_reply g"
proof -
  assume a: "reply_as_expected g"
  then obtain v others where g: "replies g = Some v # others" and v: "expected_shape v"
    by (auto simp: reply_as_expected_def split: list.splits option.splits)
  from v obtain d where d: "v = PDict d"
    by (cases v) (simp_all add: expected_shape_def)
  from v d obtain ts where ts: "map_of d ''results'' = Some (PList ts)"
    and all: "list_all matching_table_shape ts"
    by (auto simp: expected_shape_def split: option.splits pyval.splits)
  from all have "list_all readable_entry ts"
    by (simp add: list_all_iff matching_table_readable)
  with g d ts show ?thesis by (simp add: readable_reply_def)
qed


lemma pruned_tables_unusable:
  "\<exists>s\<in>set schemas. unusable_columns needed s
    \<Longrightarrow> \<exists>e. pruned_tables D needed schemas st = Inl e"
proof (induction schemas arbitrary: st)
  case Nil
  then show ?case by simp
next
  case (Cons s schemas)
  obtain rs hc hj where st: "st = (rs, hc, hj)" by (cases st)
  show ?case
  proof (cases "unusable_columns needed s")
    case True
    then obtain n k e where "map_of s ''type'' = Some (PStr ''TABLE'')"
      "map_of s ''name'' = Some n" "hkey n = Some k" "k \<in> fst ` set needed"
      "selected_columns needed k = Inl e"
      by (auto simp: unusable_columns_def is_table_def schema_key_def isl_def
          split: option.splits)
    then show ?thesis by (simp add: st)
  next
    case False
    with Cons.prems have "\<exists>s\<in>set schemas. unusable_columns needed s" by simp
    from Cons.IH [OF this] show ?thesis
      by (auto simp: st split: option.splits sum.splits prod.splits)
  qed
qed


text \<open>
  C7, as stated, fails: the assembler never compares the decoded reply with the expected
  shape. The reply \<^verbatim>\<open>{"results": {}}\<close>, an object in place of the list, is iterated as an
  empty sequence: the request returns an empty retrieval result, without exception. And
  a reply whose entry for \<open>orders\<close> has neither \<^verbatim>\<open>chain_of_thought_reasoning\<close> nor
  \<^verbatim>\<open>table_selection_reason\<close> is used as it is: the request returns the pruned table.
\<close>

theorem misshapen_reply_counterexample:
  "\<not> reply_as_expected
       (misshapen_generator
          (''CREATE TABLE orders (id, amount); CREATE TABLE customers (id);'' @ newline @ ''q''))
   \<and> execute example_deps example_documents ''q'' [] example_encoding example_prompt_builder
       misshapen_generator True 100
     = ([''CREATE TABLE orders (id, amount); CREATE TABLE customers (id);'' @ newline @ ''q''],
        Inr \<lparr>has_calculated_field = False, has_metric = False, has_json_field = False,
             retrieval_results = []\<rparr>)
   \<and> \<not> reply_as_expected
       (bare_generator
          (''CREATE TABLE orders (id, amount); CREATE TABLE customers (id);'' @ newline @ ''q''))
   \<and> execute example_deps example_documents ''q'' [] example_encoding example_prompt_builder
       bare_generator True 100
     = ([''CREATE TABLE orders (id, amount); CREATE TABLE customers (id);'' @ newline @ ''q''],
        Inr \<lparr>has_calculated_field = False, has_metric = False, has_json_field = False,
             retrieval_results =
               [\<lparr>table_name = PStr ''orders'', table_ddl = ''CREATE TABLE orders (id);''\<rparr>]\<rparr>)"
  by code_simp

text \<open>
  C7, amended: in a request that reaches the pruning call (the stages before it returned
  and a prompt \<open>p\<close> was built), the generator is called once, with \<open>p\<close>, and the request
  ends as the assembler does on that reply: nothing is retried, and no other result is
  substituted. Lines 349 to 358 return exactly when the reply is readable, that is, it
  decodes as JSON, the decoded value has the key \<^verbatim>\<open>results\<close>, the value under it can be
  iterated, and every element has the keys \<^verbatim>\<open>table_contents\<close> and \<^verbatim>\<open>table_name\<close> with a
  hashable name; a reply of the expected shape is readable, one without \<^verbatim>\<open>results\<close> is
  not. When the reply is not readable, the request ends with an exception and holds no
  retrieval result, neither a partial one nor the unpruned candidates. So does it when
  the reply is readable but names a TABLE schema for which it gives no collection of
  hashable columns. No other deviation from the expected shape is looked for.
\<close>

theorem pruning_reply_checks:
  assumes "construct_db_schemas documents = Inr schemas"
    and "check_using_db_schemas_without_pruning D schemas documents encoding pruning window
      = Inr chk"
    and "prompt D query schemas prompt_builder chk histories = Inr (Some p)"
  shows "execute D documents query histories encoding prompt_builder generator pruning window
      = ([p], construct_retrieval_results D chk (Some (generator p)) schemas documents)
    \<and> (readable_reply (generator p)
        \<longleftrightarrow> (\<exists>needed. columns_and_tables_needed (generator p) = Inr needed))
    \<and> (\<not> reply_has_results (generator p) \<longrightarrow> \<not> readable_reply (generator p))
    \<and> (reply_as_expected (generator p) \<longrightarrow> readable_reply (generator p))
    \<and> (\<not> readable_reply (generator p) \<longrightarrow>
         (\<exists>e. execute D documents query histories encoding prompt_builder generator pruning
                 window = ([p], Inl e)))
    \<and> (\<forall>needed. columns_and_tables_needed (generator p) = Inr needed
         \<longrightarrow> (\<exists>s\<in>set schemas. unusable_columns needed s)
         \<longrightarrow> (\<exists>e. execute D documents query histories encoding prompt_builder generator
                      pruning window = ([p], Inl e)))"
proof -
  let ?g = "generator p"
  have ex: "execute D documents query histories encoding prompt_builder generator pruning window
      = ([p], construct_retrieval_results D chk (Some ?g) schemas documents)"
    using assms by (simp add: execute_def filter_columns_in_tables_def)
  have 1: "\<exists>e. construct_retrieval_results D chk (Some ?g) schemas documents = Inl e"
    if "\<not> readable_reply ?g"
  proof -
    from that readable_reply_iff [of ?g]
    obtain e where "columns_and_tables_needed ?g = Inl e"
      by (cases "columns_and_tables_needed ?g") auto
    then show ?thesis by (simp add: construct_retrieval_results_def)
  qed
  have 2: "\<exists>e. construct_retrieval_results D chk (Some ?g) schemas documents = Inl e"
    if "columns_and_tables_needed ?g = Inr needed" "\<exists>s\<in>set schemas. unusable_columns needed s"
    for needed
  proof -
    from pruned_tables_unusable [OF that(2)]
    obtain e where "pruned_tables D needed schemas ([], False, False) = Inl e" by blast
    with that(1) show ?thesis by (simp add: construct_retrieval_results_def)
  qed
  from ex 1 2 readable_reply_iff [of ?g] unreadable_without_results [of ?g]
    expected_reply_readable [of ?g]
  show ?thesis by (simp only:) blast
qed

theorem pruning_reply_checks_witness:
  "execute example_deps example_documents ''q'' [] example_encoding example_prompt_builder
       broken_generator True 100
     = ([''CREATE TABLE orders (id, amount); CREATE TABLE customers (id);'' @ newline @ ''q''],
        construct_retrieval_results example_deps pruning_required
          (Some (broken_generator
             (''CREATE TABLE orders (id, amount); CREATE TABLE customers (id);''
                @ newline @ ''q'')))
          example_schemas example_documents)
   \<and> \<not> reply_has_results
       (broken_generator
          (''CREATE TABLE orders (id, amount); CREATE TABLE customers (id);'' @ newline @ ''q''))
   \<and> \<not> readable_reply
       (broken_generator
          (''CREATE TABLE orders (id, amount); CREATE TABLE customers (id);'' @ newline @ ''q''))
   \<and> (\<exists>e. execute example_deps example_documents ''q'' [] example_encoding
              example_prompt_builder broken_generator True 100
          = ([''CREATE TABLE orders (id, amount); CREATE TABLE customers (id);''
                @ newline @ ''q''], Inl e))
   \<and> columns_and_tables_needed
       (columnless_generator
          (''CREATE TABLE orders (id, amount); CREATE TABLE customers (id);'' @ newline @ ''q''))
     = Inr [(KStr ''orders'', PDict [])]
   \<and> unusable_columns [(KStr ''orders'', PDict [])]
       (table_schema ''orders'' [column ''id'', column ''amount''])
   \<and> (\<exists>e. execute example_deps example_documents ''q'' [] example_encoding
              example_prompt_builder columnless_generator True 100
          = ([''CREATE TABLE orders (id, amount); CREATE TABLE customers (id);''
                @ newline @ ''q''], Inl e))
   \<and> reply_as_expected
       (example_generator
          (''CREATE TABLE orders (id, amount); CREATE TABLE customers (id);'' @ newline @ ''q''))
   \<and> readable_reply
       (example_generator
          (''CREATE TABLE orders (id, amount); CREATE TABLE customers (id);'' @ newline @ ''q''))"
proof -
  let ?p = "''CREATE TABLE orders (id, amount); CREATE TABLE customers (id);'' @ newline @ ''q''"
  have a: "construct_db_schemas example_documents = Inr example_schemas"
    by code_simp
  have b: "check_using_db_schemas_without_pruning example_deps example_schemas
      example_documents example_encoding True 100 = Inr pruning_required"
    by code_simp
  have c: "prompt example_deps ''q'' example_schemas example_prompt_builder pruning_required []
      = Inr (Some ?p)"
    by code_simp
  have d: "\<not> reply_has_results (broken_generator ?p)"
    by (simp add: reply_has_results_def broken_generator_def)
  have e: "columns_and_tables_needed (columnless_generator ?p)
      = Inr [(KStr ''orders'', PDict [])]"
    by code_simp
  have f: "unusable_columns [(KStr ''orders'', PDict [])]
      (table_schema ''orders'' [column ''id'', column ''amount''])"
    by code_simp
  then have g: "\<exists>s\<in>set example_schemas. unusable_columns [(KStr ''orders'', PDict [])] s"
    by (simp add: example_schemas_def)
  have h: "reply_as_expected (example_generator ?p)"
    by code_simp
  note broken = pruning_reply_checks [where generator = broken_generator, OF a b c]
  note columnless = pruning_reply_checks [where generator = columnless_generator, OF a b c]
  note expected = pruning_reply_checks [where generator = example_generator, OF a b c]
  note 1 = broken [THEN conjunct1]
  note 2 = broken [THEN conjunct2, THEN conjunct2, THEN conjunct1, THEN mp, OF d]
  note 3 = broken [THEN conjunct2, THEN conjunct2, THEN conjunct2, THEN conjunct2,
      THEN conjunct1, THEN mp, OF 2]
  note 4 = columnless [THEN conjunct2, THEN conjunct2, THEN conjunct2, THEN conjunct2,
      THEN conjunct2, THEN spec, THEN mp, THEN mp, OF e g]
  note 5 = expected [THEN conjunct2, THEN conjunct2, THEN conjunct2, THEN conjunct1,
      THEN mp, OF h]
  from 1 d 2 3 e f 4 h 5 show ?thesis by (intro conjI)
qed

section \<open>The pruned path\<close>









lemma pruned_tables_length:
  "pruned_tables D needed schemas (rs, hc, hj) = Inr (rs', hc', hj')
     \<Longrightarrow> length rs'
         = length rs + length (filter (selected_schema (fst ` set needed)) schemas)"
proof (induction schemas arbitrary: rs hc hj)
  case Nil
  then show ?case by simp
next
  case (Cons s schemas)
  show ?case
  proof (cases "selected_schema (fst ` set needed) s")
    case True
    then obtain n k where s: "map_of s ''type'' = Some (PStr ''TABLE'')"
      "map_of s ''name'' = Some n" "hkey n = Some k" "k \<in> fst ` set needed"
      by (auto simp: selected_schema_def is_table_def split: option.splits)
    with Cons.prems obtain ddl c j where
      "pruned_tables D needed schemas (rs @ [\<lparr>table_name = n, table_ddl = ddl\<rparr>], hc \<or> c, hj \<or> j)
         = Inr (rs', hc', hj')"
      by (auto split: sum.splits)
    from Cons.IH [OF this] True show ?thesis by simp
  next
    case False
    with Cons.prems have "pruned_tables D needed schemas (rs, hc, hj) = Inr (rs', hc', hj')"
      by (auto simp: selected_schema_def is_table_def split: option.splits if_splits)
    from Cons.IH [OF this] False show ?thesis by simp
  qed
qed

lemma pruned_documents_length:
  "pruned_documents D needed documents (rs, hm) = Inr (rs', hm')
     \<Longrightarrow> length rs'
         = length rs
           + length (filter (\<lambda>d. selected_document (fst ` set needed) d \<and> is_metric_or_view d)
               documents)"
proof (induction documents arbitrary: rs hm)
  case Nil
  then show ?case by simp
next
  case (Cons d documents)
  show ?case
  proof (cases "selected_document (fst ` set needed) d")
    case False
    with Cons.prems have "pruned_documents D needed documents (rs, hm) = Inr (rs', hm')"
      by (simp add: selected_document_def)
    from Cons.IH [OF this] False show ?thesis by simp
  next
    case True
    with Cons.prems obtain c t
      where c: "content_value d = Some c" and t: "getitem c ''type'' = Inr t"
      by (auto simp: selected_document_def split: option.splits sum.splits)
    show ?thesis
    proof (cases "t = PStr ''METRIC'' \<or> t = PStr ''VIEW''")
      case mv: True
      with Cons.prems True c t obtain r hm1 where
        "pruned_documents D needed documents (rs @ [r], hm1) = Inr (rs', hm')"
        by (auto simp: selected_document_def split: sum.splits if_splits)
      from Cons.IH [OF this] True mv c t show ?thesis
        by (auto simp: is_metric_or_view_def)
    next
      case nmv: False
      with Cons.prems True c t
      have "pruned_documents D needed documents (rs, hm) = Inr (rs', hm')"
        by (auto simp: selected_document_def)
      from Cons.IH [OF this] True nmv c t show ?thesis
        by (auto simp: is_metric_or_view_def)
    qed
  qed
qed

lemma construct_retrieval_results_pruned:
  assumes "columns_and_tables_needed g = Inr needed"
    and "construct_retrieval_results D chk (Some g) schemas documents = Inr out"
  obtains rs1 hc hj hm where
    "pruned_tables D needed schemas ([], False, False) = Inr (rs1, hc, hj)"
    "pruned_documents D needed documents (rs1, False) = Inr (retrieval_results out, hm)"
  using assms
  by (auto simp: construct_retrieval_results_def split: sum.splits prod.splits)



section \<open>A reply that repeats a table or a column\<close>

lemma reformat_json:
  "reformat (map table_json ts) acc
     = Inr (fold (\<lambda>t. AList.update (fst (selection_entry t)) (snd (selection_entry t))) ts acc)"
  by (induction ts arbitrary: acc)
    (simp_all add: table_json_def selection_entry_def)

lemma needed_json:
  "columns_and_tables_needed \<lparr>replies = Some (results_json ts) # others\<rparr>
     = Inr (fold (\<lambda>t. AList.update (fst (selection_entry t)) (snd (selection_entry t))) ts [])"
  by (simp add: columns_and_tables_needed_def results_json_def reformat_json)

lemma map_of_fold_update:
  "map_of (fold (\<lambda>t. AList.update (fst (e t)) (snd (e t))) ts acc)
     = map_of (rev (map e ts) @ acc)"
proof (induction ts arbitrary: acc)
  case Nil
  then show ?case by simp
next
  case (Cons t ts)
  have "map_of (AList.update (fst (e t)) (snd (e t)) acc) = map_of (e t # acc)"
    by (cases "e t") (simp add: update_conv')
  then show ?case
    by (simp add: Cons.IH map_of_append del: map_of.simps)
qed

lemma keys_fold_update:
  "fst ` set (fold (\<lambda>t. AList.update (fst (e t)) (snd (e t))) ts acc)
     = (\<lambda>t. fst (e t)) ` set ts \<union> fst ` set acc"
  by (induction ts arbitrary: acc) (auto simp: dom_update)

lemma hkeys_strings: "hkeys (map PStr cs) = Some (map KStr cs)"
  by (induction cs) simp_all

lemma selected_columns_map_of:
  "map_of needed k = map_of needed' k \<Longrightarrow> selected_columns needed k = selected_columns needed' k"
  by (simp add: selected_columns_def)

lemma selected_columns_distinct:
  "selected_columns (map selection_entry (map distinct_columns xs)) k
     = selected_columns (map selection_entry xs) k"
  by (induction xs)
    (simp_all add: selected_columns_def selection_entry_def distinct_columns_def
      contents_json_def hkeys_strings)

lemma pruned_tables_selection_cong:
  assumes "fst ` set needed = fst ` set needed'"
    and "\<And>k. selected_columns needed k = selected_columns needed' k"
  shows "pruned_tables D needed schemas st = pruned_tables D needed' schemas st"
proof (induction schemas arbitrary: st)
  case Nil
  then show ?case by simp
next
  case (Cons s schemas)
  obtain rs hc hj where st: "st = (rs, hc, hj)" by (cases st)
  show ?case unfolding st
    by (simp add: assms Cons.IH split: option.splits sum.splits prod.splits)
qed

lemma pruned_documents_selection_cong:
  assumes "fst ` set needed = fst ` set needed'"
  shows "pruned_documents D needed documents st = pruned_documents D needed' documents st"
proof (induction documents arbitrary: st)
  case Nil
  then show ?case by simp
next
  case (Cons d documents)
  obtain rs hm where st: "st = (rs, hm)" by (cases st)
  show ?case unfolding st
    by (simp add: assms Cons.IH split: option.splits sum.splits)
qed

text \<open>
  C10: for a reply of the expected shape with the entries \<open>ts\<close>, the selection maps every
  table name to the contents of the last entry of that name (\<open>map_of\<close> reads the reversed
  list of entries from its head) and its keys are the names in \<open>ts\<close>; when the assembler
  returns, it has one result for every TABLE schema and every METRIC or VIEW document whose
  name occurs in \<open>ts\<close>, however often the name occurs; and removing the duplicates among
  the columns of every entry does not change what the assembler returns.
\<close>

theorem repeated_selection_entries:
  "(\<exists>needed. columns_and_tables_needed \<lparr>replies = Some (results_json ts) # others\<rparr> = Inr needed
      \<and> map_of needed = map_of (rev (map selection_entry ts))
      \<and> fst ` set needed = (\<lambda>t. KStr (matching_name t)) ` set ts)
   \<and> (\<forall>out. construct_retrieval_results D chk (Some \<lparr>replies = Some (results_json ts) # others\<rparr>)
               schemas documents = Inr out \<longrightarrow>
          length (retrieval_results out)
            = length (filter (selected_schema ((\<lambda>t. KStr (matching_name t)) ` set ts)) schemas)
              + length (filter (\<lambda>d. selected_document ((\<lambda>t. KStr (matching_name t)) ` set ts) d
                                    \<and> is_metric_or_view d) documents))
   \<and> construct_retrieval_results D chk
         (Some \<lparr>replies = Some (results_json (map distinct_columns ts)) # others\<rparr>)
         schemas documents
       = construct_retrieval_results D chk (Some \<lparr>replies = Some (results_json ts) # others\<rparr>)
           schemas documents"
proof -
  define needed where
    "needed = fold (\<lambda>t. AList.update (fst (selection_entry t)) (snd (selection_entry t))) ts []"
  define needed' where
    "needed' = fold (\<lambda>t. AList.update (fst (selection_entry t)) (snd (selection_entry t)))
       (map distinct_columns ts) []"
  have n: "columns_and_tables_needed \<lparr>replies = Some (results_json ts) # others\<rparr> = Inr needed"
    by (simp add: needed_json needed_def)
  have n': "columns_and_tables_needed
      \<lparr>replies = Some (results_json (map distinct_columns ts)) # others\<rparr> = Inr needed'"
    by (simp add: needed_json needed'_def)
  have m: "map_of needed = map_of (rev (map selection_entry ts))"
    using map_of_fold_update [of selection_entry ts "[]"] by (simp add: needed_def)
  have m': "map_of needed' = map_of (rev (map selection_entry (map distinct_columns ts)))"
    using map_of_fold_update [of selection_entry "map distinct_columns ts" "[]"]
    by (simp add: needed'_def)
  have k: "fst ` set needed = (\<lambda>t. KStr (matching_name t)) ` set ts"
    using keys_fold_update [of selection_entry ts "[]"]
    by (simp add: needed_def selection_entry_def)
  have k': "fst ` set needed' = (\<lambda>t. KStr (matching_name t)) ` set ts"
    using keys_fold_update [of selection_entry "map distinct_columns ts" "[]"]
    by (simp add: needed'_def selection_entry_def distinct_columns_def image_image)
  have one: "\<exists>needed. columns_and_tables_needed \<lparr>replies = Some (results_json ts) # others\<rparr>
        = Inr needed
      \<and> map_of needed = map_of (rev (map selection_entry ts))
      \<and> fst ` set needed = (\<lambda>t. KStr (matching_name t)) ` set ts"
    using n m k by blast
  have two: "length (retrieval_results out)
            = length (filter (selected_schema ((\<lambda>t. KStr (matching_name t)) ` set ts)) schemas)
              + length (filter (\<lambda>d. selected_document ((\<lambda>t. KStr (matching_name t)) ` set ts) d
                                    \<and> is_metric_or_view d) documents)"
    if "construct_retrieval_results D chk (Some \<lparr>replies = Some (results_json ts) # others\<rparr>)
               schemas documents = Inr out" for out
  proof -
    from n that obtain rs1 hc hj hm where
      t: "pruned_tables D needed schemas ([], False, False) = Inr (rs1, hc, hj)" and
      d: "pruned_documents D needed documents (rs1, False) = Inr (retrieval_results out, hm)"
      by (rule construct_retrieval_results_pruned)
    from pruned_tables_length [OF t] pruned_documents_length [OF d] k show ?thesis by simp
  qed
  have cols: "selected_columns needed' c = selected_columns needed c" for c
  proof -
    have "selected_columns needed' c
        = selected_columns (map selection_entry (map distinct_columns (rev ts))) c"
      by (rule selected_columns_map_of) (simp add: m' rev_map)
    also have "\<dots> = selected_columns (map selection_entry (rev ts)) c"
      by (rule selected_columns_distinct)
    also have "\<dots> = selected_columns needed c"
      by (rule selected_columns_map_of) (simp add: m rev_map)
    finally show ?thesis .
  qed
  have three: "construct_retrieval_results D chk
         (Some \<lparr>replies = Some (results_json (map distinct_columns ts)) # others\<rparr>)
         schemas documents
       = construct_retrieval_results D chk (Some \<lparr>replies = Some (results_json ts) # others\<rparr>)
           schemas documents"
    using pruned_tables_selection_cong [of needed' needed D schemas "([], False, False)"]
      pruned_documents_selection_cong [of needed' needed D documents] k k' cols
    by (simp add: construct_retrieval_results_def n n' split: sum.splits prod.splits)
  from one two three show ?thesis by blast
qed

theorem repeated_selection_entries_witness:
  "construct_retrieval_results example_deps pruning_required
     (Some \<lparr>replies = [Some (results_json (map distinct_columns repeating_tables))]\<rparr>)
     example_schemas example_documents
   = construct_retrieval_results example_deps pruning_required
       (Some \<lparr>replies = [Some (results_json repeating_tables)]\<rparr>)
       example_schemas example_documents
   \<and> columns_and_tables_needed \<lparr>replies = [Some (results_json repeating_tables)]\<rparr>
     = Inr [(KStr ''orders'',
             contents_json (MatchingTableContents [''a'', ''b''] [''id'', ''id'']))]
   \<and> construct_retrieval_results example_deps pruning_required
       (Some \<lparr>replies = [Some (results_json repeating_tables)]\<rparr>)
       example_schemas example_documents
     = Inr \<lparr>has_calculated_field = False, has_metric = False, has_json_field = False,
            retrieval_results =
              [\<lparr>table_name = PStr ''orders'',
                 table_ddl = ''CREATE TABLE orders (id);''\<rparr>]\<rparr>"
proof -
  from repeated_selection_entries
    [of repeating_tables "[]" example_deps pruning_required example_schemas example_documents]
  have "construct_retrieval_results example_deps pruning_required
     (Some \<lparr>replies = [Some (results_json (map distinct_columns repeating_tables))]\<rparr>)
     example_schemas example_documents
   = construct_retrieval_results example_deps pruning_required
       (Some \<lparr>replies = [Some (results_json repeating_tables)]\<rparr>)
       example_schemas example_documents"
    by blast
  moreover have "columns_and_tables_needed \<lparr>replies = [Some (results_json repeating_tables)]\<rparr>
     = Inr [(KStr ''orders'',
             contents_json (MatchingTableContents [''a'', ''b''] [''id'', ''id'']))]"
    by code_simp
  moreover have "construct_retrieval_results example_deps pruning_required
       (Some \<lparr>replies = [Some (results_json repeating_tables)]\<rparr>)
       example_schemas example_documents
     = Inr \<lparr>has_calculated_field = False, has_metric = False, has_json_field = False,
            retrieval_results =
              [\<lparr>table_name = PStr ''orders'',
                 table_ddl = ''CREATE TABLE orders (id);''\<rparr>]\<rparr>"
    by code_simp
  ultimately show ?thesis by blast
qed

end
